theory Spec2Isabelle
  imports Complex_Main "HOL-Library.Multiset"
begin

section \<open>The data frame\<close>

text \<open>
  A cell of the table as the reader of the tab-separated file hands it over: a piece of
  text, a number, or the floating "not a number" marker that stands for a missing value.
  Numbers are modelled as exact rationals; the rounding and the infinities of 64-bit
  floats are outside the model.
\<close>

datatype cell = is_Str: Str string | is_Num: Num rat | is_NaN: NaN

text \<open>
  A frame is a header of column labels and the rows below it, one cell per column.
  A row that is shorter than the header reads as missing in the columns it lacks.
\<close>

record frame =
  columns :: "string list"
  rows :: "cell list list"

datatype error = KeyError string | TypeError

definition sum_bind :: "error + 'a \<Rightarrow> ('a \<Rightarrow> error + 'b) \<Rightarrow> error + 'b" where
  "sum_bind m f = (case m of Inl e \<Rightarrow> Inl e | Inr x \<Rightarrow> f x)"

fun index_of :: "string \<Rightarrow> string list \<Rightarrow> nat option" where
  "index_of c [] = None"
| "index_of c (x # xs) = (if x = c then Some 0 else map_option Suc (index_of c xs))"

definition cell_at :: "cell list \<Rightarrow> nat \<Rightarrow> cell" where
  "cell_at r i = (if i < length r then r ! i else NaN)"

definition put_cell :: "cell list \<Rightarrow> nat \<Rightarrow> cell \<Rightarrow> cell list" where
  "put_cell r i v = (r @ replicate (Suc i - length r) NaN)[i := v]"

text \<open>\<^verbatim>\<open>df[c]\<close>: the column labelled \<open>c\<close>, or a \<open>KeyError\<close>.\<close>

definition getitem :: "frame \<Rightarrow> string \<Rightarrow> error + cell list" where
  "getitem df c =
     (case index_of c (columns df) of
        None \<Rightarrow> Inl (KeyError c)
      | Some i \<Rightarrow> Inr (map (\<lambda>r. cell_at r i) (rows df)))"

text \<open>
  Assignment to a column replaces the column in place when the label exists and appends
  a new column at the right end otherwise.
\<close>

definition slot :: "string list \<Rightarrow> string \<Rightarrow> nat" where
  "slot cs c = (case index_of c cs of None \<Rightarrow> length cs | Some i \<Rightarrow> i)"

definition with_label :: "string list \<Rightarrow> string \<Rightarrow> string list" where
  "with_label cs c = (case index_of c cs of None \<Rightarrow> cs @ [c] | Some i \<Rightarrow> cs)"

text \<open>\<^verbatim>\<open>df[c] = series\<close>\<close>

definition setitem :: "frame \<Rightarrow> string \<Rightarrow> cell list \<Rightarrow> frame" where
  "setitem df c vs =
     \<lparr>columns = with_label (columns df) c,
      rows = map (\<lambda>(r, v). put_cell r (slot (columns df) c) v) (zip (rows df) vs)\<rparr>"

text \<open>\<^verbatim>\<open>df[mask]\<close>: the rows at which the boolean mask holds, in their order.\<close>

definition select_rows :: "frame \<Rightarrow> bool list \<Rightarrow> frame" where
  "select_rows df msk = df\<lparr>rows := map fst (filter snd (zip (rows df) msk))\<rparr>"

text \<open>\<^verbatim>\<open>df.loc[mask, c] = v\<close>: the scalar \<open>v\<close> is written to column \<open>c\<close> of the masked rows.\<close>

definition loc_setitem :: "frame \<Rightarrow> bool list \<Rightarrow> string \<Rightarrow> cell \<Rightarrow> frame" where
  "loc_setitem df msk c v =
     \<lparr>columns = with_label (columns df) c,
      rows = map (\<lambda>(r, m). if m then put_cell r (slot (columns df) c) v else r)
               (zip (rows df) msk)\<rparr>"

section \<open>Numeric coercion and the statistics of a column\<close>

text \<open>
  \<^verbatim>\<open>pd.to_numeric(..., errors="coerce")\<close> on one cell. The reader of numerals \<open>p\<close> is
  the library's; it is a parameter here, and text it does not accept becomes missing.
\<close>

fun to_numeric :: "(string \<Rightarrow> rat option) \<Rightarrow> cell \<Rightarrow> cell" where
  "to_numeric p (Str s) = (case p s of None \<Rightarrow> NaN | Some x \<Rightarrow> Num x)"
| "to_numeric p (Num x) = Num x"
| "to_numeric p NaN = NaN"

text \<open>
  Reading a column as floats for a comparison or a statistic: text in the column is a
  \<open>TypeError\<close>, the missing marker is \<open>None\<close>.
\<close>

fun float_of :: "cell \<Rightarrow> rat option" where
  "float_of (Num x) = Some x"
| "float_of _ = None"

definition as_floats :: "cell list \<Rightarrow> error + rat option list" where
  "as_floats cs = (if list_ex is_Str cs then Inl TypeError else Inr (map float_of cs))"

definition numeric_col :: "frame \<Rightarrow> string \<Rightarrow> error + rat option list" where
  "numeric_col df c = sum_bind (getitem df c) as_floats"

definition dropna :: "rat option list \<Rightarrow> rat list" where
  "dropna xs = map the (filter (\<lambda>x. x \<noteq> None) xs)"

text \<open>The median skips missing values; of no values at all it is missing.\<close>

definition median :: "rat option list \<Rightarrow> rat option" where
  "median xs =
     (let ys = sort (dropna xs); n = length ys in
      if n = 0 then None
      else if odd n then Some (ys ! (n div 2))
      else Some ((ys ! (n div 2 - 1) + ys ! (n div 2)) / 2))"

text \<open>
  Comparisons of floats, where the missing marker compares false with everything, and
  of a column with a scalar.
\<close>

fun float_ge :: "rat option \<Rightarrow> rat option \<Rightarrow> bool" where
  "float_ge (Some a) (Some b) = (a \<ge> b)"
| "float_ge _ _ = False"

fun float_lt :: "rat option \<Rightarrow> rat option \<Rightarrow> bool" where
  "float_lt (Some a) (Some b) = (a < b)"
| "float_lt _ _ = False"

definition ge_scalar :: "rat option list \<Rightarrow> rat option \<Rightarrow> bool list" where
  "ge_scalar xs m = map (\<lambda>x. float_ge x m) xs"

definition lt_scalar :: "rat option list \<Rightarrow> rat option \<Rightarrow> bool list" where
  "lt_scalar xs m = map (\<lambda>x. float_lt x m) xs"

definition mask_and :: "bool list \<Rightarrow> bool list \<Rightarrow> bool list" where
  "mask_and xs ys = map (\<lambda>(a, b). a \<and> b) (zip xs ys)"

section \<open>Loading and classifying\<close>

definition rename_columns :: "(string \<times> string) list" where
  "rename_columns =
     [(''Importers'', ''country''),
      (''Select your indicators-Value exported in 2024 (USD thousand)'', ''export_value''),
      (''Select your indicators-Growth in exported value between 2020-2024 (%, p.a.)'',
       ''growth''),
      (''Select your indicators-Ranking of partner countries in world imports'',
       ''world_rank'')]"

text \<open>
  \<^verbatim>\<open>df.rename(columns=...)\<close>: a label that is a key of the dictionary is replaced, any
  other label stays, and a key that is no label of the frame is ignored.
\<close>

definition rename_label :: "string \<Rightarrow> string" where
  "rename_label c = (case map_of rename_columns c of None \<Rightarrow> c | Some c' \<Rightarrow> c')"

definition rename :: "frame \<Rightarrow> frame" where
  "rename df = df\<lparr>columns := map rename_label (columns df)\<rparr>"

text \<open>The loop over the three numeric columns.\<close>

fun coerce_columns :: "(string \<Rightarrow> rat option) \<Rightarrow> string list \<Rightarrow> frame \<Rightarrow> error + frame" where
  "coerce_columns p [] df = Inr df"
| "coerce_columns p (col # cols) df =
     sum_bind (getitem df col) (\<lambda>s.
       coerce_columns p cols (setitem df col (map (to_numeric p) s)))"

text \<open>The block "Remove aggregate".\<close>

definition remove_aggregate :: "frame \<Rightarrow> error + frame" where
  "remove_aggregate df =
     sum_bind (getitem df ''country'') (\<lambda>country.
       Inr (select_rows df (map (\<lambda>c. c \<noteq> Str ''World'') country)))"

text \<open>The block "Convert to numeric".\<close>

definition convert_to_numeric :: "(string \<Rightarrow> rat option) \<Rightarrow> frame \<Rightarrow> error + frame" where
  "convert_to_numeric p df = coerce_columns p [''export_value'', ''growth'', ''world_rank''] df"

text \<open>
  The block "Market strategy classification". Every statement of the source is one step;
  each of the three conditional assignments reads the two columns again. The columns are
  there when this block runs, so that reading them by attribute and by label is the same.
\<close>

definition classify :: "frame \<Rightarrow> error + frame" where
  "classify df0 =
     sum_bind (numeric_col df0 ''export_value'') (\<lambda>ev.
     let median_value = median ev;
         df1 = setitem df0 ''strategy'' (replicate (length (rows df0)) (Str ''Watch'')) in
     sum_bind (numeric_col df1 ''export_value'') (\<lambda>ev.
     sum_bind (numeric_col df1 ''growth'') (\<lambda>g.
     let df2 = loc_setitem df1 (mask_and (ge_scalar ev median_value) (ge_scalar g (Some 0)))
                 ''strategy'' (Str ''Invest'') in
     sum_bind (numeric_col df2 ''export_value'') (\<lambda>ev.
     sum_bind (numeric_col df2 ''growth'') (\<lambda>g.
     let df3 = loc_setitem df2 (mask_and (lt_scalar ev median_value) (ge_scalar g (Some 0)))
                 ''strategy'' (Str ''Nurture'') in
     sum_bind (numeric_col df3 ''export_value'') (\<lambda>ev.
     sum_bind (numeric_col df3 ''growth'') (\<lambda>g.
     let df4 = loc_setitem df3 (mask_and (ge_scalar ev median_value) (lt_scalar g (Some 0)))
                 ''strategy'' (Str ''Defend'') in
     Inr df4)))))))"

text \<open>
  \<open>load_data\<close>, from the frame \<open>raw\<close> that \<^verbatim>\<open>pd.read_csv\<close> gives: renaming, then the
  three blocks, each of which can raise.
\<close>

definition load_data :: "(string \<Rightarrow> rat option) \<Rightarrow> frame \<Rightarrow> error + frame" where
  "load_data p raw =
     sum_bind (remove_aggregate (rename raw)) (\<lambda>df.
     sum_bind (convert_to_numeric p df) classify)"

text \<open>\<^verbatim>\<open>df["export_value"].sum()\<close>: the sum of the values that are not missing.\<close>

definition total_exports :: "frame \<Rightarrow> error + rat" where
  "total_exports df = sum_bind (numeric_col df ''export_value'') (\<lambda>ev. Inr (sum_list (dropna ev)))"

section \<open>The pipeline row by row\<close>

text \<open>
  What the three coercion steps do to one row, given the positions of the three numeric
  columns, in the order of the loop.
\<close>

definition coerce_row :: "(string \<Rightarrow> rat option) \<Rightarrow> nat \<Rightarrow> nat \<Rightarrow> nat \<Rightarrow> cell list \<Rightarrow> cell list" where
  "coerce_row p ie ig iw r =
     (let r = put_cell r ie (to_numeric p (cell_at r ie));
          r = put_cell r ig (to_numeric p (cell_at r ig))
      in put_cell r iw (to_numeric p (cell_at r iw)))"

text \<open>
  The quadrant rule in the words of the specification: a single function of a row's
  export value, its growth and the median, each possibly missing.
\<close>

definition quadrant :: "rat option \<Rightarrow> rat option \<Rightarrow> rat option \<Rightarrow> string" where
  "quadrant v g m =
     (case (v, g, m) of
        (Some x, Some y, Some z) \<Rightarrow>
          if x \<ge> z \<and> y \<ge> 0 then ''Invest''
          else if x < z \<and> y \<ge> 0 then ''Nurture''
          else if x \<ge> z \<and> y < 0 then ''Defend''
          else ''Watch''
      | _ \<Rightarrow> ''Watch'')"

definition label_row :: "nat \<Rightarrow> nat \<Rightarrow> nat \<Rightarrow> rat option \<Rightarrow> cell list \<Rightarrow> cell list" where
  "label_row ie ig is m r =
     put_cell r is (Str (quadrant (float_of (cell_at r ie)) (float_of (cell_at r ig)) m))"

definition keep_row :: "nat \<Rightarrow> cell list \<Rightarrow> bool" where
  "keep_row ic r = (cell_at r ic \<noteq> Str ''World'')"

text \<open>
  The rows of the loaded frame, from the rows of the input and the positions of the
  columns: aggregate rows removed, the rest coerced, then labelled against the median.
\<close>

definition loaded_rows ::
  "(string \<Rightarrow> rat option) \<Rightarrow> nat \<Rightarrow> nat \<Rightarrow> nat \<Rightarrow> nat \<Rightarrow> nat \<Rightarrow> cell list list \<Rightarrow> cell list list" where
  "loaded_rows p ic ie ig iw is rs =
     (let R = map (coerce_row p ie ig iw) (filter (keep_row ic) rs);
          m = median (map (\<lambda>r. float_of (cell_at r ie)) R)
      in map (label_row ie ig is m) R)"

section \<open>The cache around the loader\<close>


section \<open>Inputs\<close>

text \<open>
  The four columns the loader needs, by their names after renaming, and the inputs the
  model covers: tables in which no label occurs twice after renaming.
\<close>

definition required_columns :: "string list" where
  "required_columns = [''country'', ''export_value'', ''growth'', ''world_rank'']"

definition well_formed :: "frame \<Rightarrow> bool" where
  "well_formed df = distinct (map rename_label (columns df))"

text \<open>
  A reader of plain integer numerals (an optional minus sign, then decimal digits),
  which stands for the library's reader in the examples.
\<close>

definition digit_of :: "char \<Rightarrow> nat option" where
  "digit_of c = (let n = (of_char c :: nat) in if 48 \<le> n \<and> n \<le> 57 then Some (n - 48) else None)"

fun read_digits :: "nat \<Rightarrow> string \<Rightarrow> nat option" where
  "read_digits acc [] = Some acc"
| "read_digits acc (c # cs) =
     (case digit_of c of None \<Rightarrow> None | Some d \<Rightarrow> read_digits (10 * acc + d) cs)"

definition read_number :: "string \<Rightarrow> rat option" where
  "read_number s =
     (case s of
        [] \<Rightarrow> None
      | c # cs \<Rightarrow>
          if c = CHR ''-'' then
            (if cs = [] then None else map_option (\<lambda>n. - of_nat n) (read_digits 0 cs))
          else map_option of_nat (read_digits 0 s))"

definition trade_map_header :: "string list" where
  "trade_map_header =
     [''Importers'',
      ''Select your indicators-Value exported in 2024 (USD thousand)'',
      ''Select your indicators-Growth in exported value between 2020-2024 (%, p.a.)'',
      ''Select your indicators-Ranking of partner countries in world imports'']"

text \<open>A table with the aggregate row and four markets, its numeric columns read as numbers.\<close>

definition four_markets :: frame where
  "four_markets =
     \<lparr>columns = trade_map_header,
      rows = [[Str ''World'', Num 100, Num 3, NaN],
              [Str ''Chad'', Num 10, Num 1, Num 4],
              [Str ''Peru'', Num 20, Num (- 1), Num 3],
              [Str ''Oman'', Num 30, Num 2, Num 2],
              [Str ''Fiji'', Num 40, Num (- 2), Num 1]]\<rparr>"

text \<open>A table whose value column was read as text, with one cell that is no numeral.\<close>

definition text_markets :: frame where
  "text_markets =
     \<lparr>columns = trade_map_header,
      rows = [[Str ''World'', Str ''60'', Num 3, NaN],
              [Str ''Chad'', Str ''10'', Num 1, Num 3],
              [Str ''Peru'', Str ''N/A'', Num 5, Num 2],
              [Str ''Oman'', Str ''50'', Num (- 2), Num 1]]\<rparr>"

text \<open>The frames that loading the two tables gives.\<close>

definition four_markets_loaded :: frame where
  "four_markets_loaded =
     \<lparr>columns = [''country'', ''export_value'', ''growth'', ''world_rank'', ''strategy''],
      rows = [[Str ''Chad'', Num 10, Num 1, Num 4, Str ''Nurture''],
              [Str ''Peru'', Num 20, Num (- 1), Num 3, Str ''Watch''],
              [Str ''Oman'', Num 30, Num 2, Num 2, Str ''Invest''],
              [Str ''Fiji'', Num 40, Num (- 2), Num 1, Str ''Defend'']]\<rparr>"

definition text_markets_loaded :: frame where
  "text_markets_loaded =
     \<lparr>columns = [''country'', ''export_value'', ''growth'', ''world_rank'', ''strategy''],
      rows = [[Str ''Chad'', Num 10, Num 1, Num 3, Str ''Nurture''],
              [Str ''Peru'', NaN, Num 5, Num 2, Str ''Watch''],
              [Str ''Oman'', Num 50, Num (- 2), Num 1, Str ''Defend'']]\<rparr>"

text \<open>A table that lacks the growth column.\<close>

definition no_growth_markets :: frame where
  "no_growth_markets =
     \<lparr>columns =
        [''Importers'',
         ''Select your indicators-Value exported in 2024 (USD thousand)'',
         ''Select your indicators-Ranking of partner countries in world imports''],
      rows = [[Str ''World'', Num 100, NaN],
              [Str ''Chad'', Num 10, Num 4]]\<rparr>"

text \<open>A table with nothing but the aggregate row, and one without any readable number.\<close>

definition only_aggregate :: frame where
  "only_aggregate = \<lparr>columns = trade_map_header, rows = [[Str ''World'', Num 100, Num 3, NaN]]\<rparr>"

definition unread_markets :: frame where
  "unread_markets =
     \<lparr>columns = trade_map_header,
      rows = [[Str ''Chad'', Str ''N/A'', Str ''-'', Str ''?''],
              [Str ''Peru'', NaN, Str ''n.a.'', NaN]]\<rparr>"

text \<open>The four markets again: with other ranks, in another order, and with other aggregate rows.\<close>

definition four_markets_reranked :: frame where
  "four_markets_reranked =
     \<lparr>columns = trade_map_header,
      rows = [[Str ''World'', Num 100, Num 3, Num 0],
              [Str ''Chad'', Num 10, Num 1, Str ''last''],
              [Str ''Peru'', Num 20, Num (- 1), NaN],
              [Str ''Oman'', Num 30, Num 2, Num 7],
              [Str ''Fiji'', Num 40, Num (- 2), Num 8]]\<rparr>"

definition four_markets_shuffled :: frame where
  "four_markets_shuffled =
     \<lparr>columns = trade_map_header,
      rows = [[Str ''Fiji'', Num 40, Num (- 2), Num 1],
              [Str ''Peru'', Num 20, Num (- 1), Num 3],
              [Str ''World'', Num 100, Num 3, NaN],
              [Str ''Chad'', Num 10, Num 1, Num 4],
              [Str ''Oman'', Num 30, Num 2, Num 2]]\<rparr>"

definition four_markets_two_aggregates :: frame where
  "four_markets_two_aggregates =
     \<lparr>columns = trade_map_header,
      rows = [[Str ''Chad'', Num 10, Num 1, Num 4],
              [Str ''World'', Num 5000, Num (- 9), NaN],
              [Str ''Peru'', Num 20, Num (- 1), Num 3],
              [Str ''Oman'', Num 30, Num 2, Num 2],
              [Str ''Fiji'', Num 40, Num (- 2), Num 1],
              [Str ''World'', Str ''total'', NaN, NaN]]\<rparr>"

section \<open>Columns, cells and rows\<close>

lemma index_of_Some: "index_of c cs = Some i \<Longrightarrow> i < length cs \<and> cs ! i = c"
  by (induction cs arbitrary: i) (auto split: if_splits)

lemma index_of_None: "index_of c cs = None \<longleftrightarrow> c \<notin> set cs"
  by (induction cs) auto

lemma index_of_neq:
  "index_of c cs = Some i \<Longrightarrow> index_of d cs = Some j \<Longrightarrow> c \<noteq> d \<Longrightarrow> i \<noteq> j"
  using index_of_Some by blast

lemma index_of_snoc:
  "index_of c (cs @ [d]) =
     (case index_of c cs of Some i \<Rightarrow> Some i | None \<Rightarrow> if d = c then Some (length cs) else None)"
  by (induction cs) (auto split: option.splits)

lemma index_of_with_label:
  "index_of c (with_label cs d) = (if c = d then Some (slot cs d) else index_of c cs)"
  by (auto simp: with_label_def slot_def index_of_snoc split: option.splits)

lemma slot_neq: "index_of c cs = Some i \<Longrightarrow> c \<noteq> d \<Longrightarrow> slot cs d \<noteq> i"
  by (auto simp: slot_def split: option.splits dest: index_of_Some)

lemma cell_at_put_cell: "cell_at (put_cell r i v) j = (if i = j then v else cell_at r j)"
  by (auto simp: cell_at_def put_cell_def nth_list_update nth_append)

lemma put_cell_twice: "put_cell (put_cell r i a) i b = put_cell r i b"
  by (simp add: put_cell_def)

lemma zip_same_map: "map f (zip (map g xs) (map h xs)) = map (\<lambda>x. f (g x, h x)) xs"
  by (induction xs) auto

lemma zip_replicate_len: "map f (zip xs (replicate (length xs) v)) = map (\<lambda>x. f (x, v)) xs"
  by (induction xs) auto

lemma filter_zip_map: "map fst (filter snd (zip xs (map P xs))) = filter P xs"
  by (induction xs) auto

lemma not_Str_to_numeric: "\<not> is_Str (to_numeric p c)"
  by (cases c) (auto split: option.splits)

lemma as_floats_to_numeric:
  "as_floats (map (\<lambda>r. to_numeric p (f r)) rs) = Inr (map (\<lambda>r. float_of (to_numeric p (f r))) rs)"
proof -
  have "\<not> is_Str (to_numeric p c)" for c
    by (cases c) (auto split: option.splits)
  then show ?thesis
    by (simp add: as_floats_def list_ex_iff o_def)
qed

section \<open>The blocks of the loader in closed form\<close>

lemma getitem_at: "index_of c (columns df) = Some i \<Longrightarrow> getitem df c = Inr (map (\<lambda>r. cell_at r i) (rows df))"
  by (simp add: getitem_def)

lemma setitem_existing:
  assumes ix: "index_of c (columns df) = Some i"
  shows "setitem df c (map f (rows df)) = \<lparr>columns = columns df, rows = map (\<lambda>r. put_cell r i (f r)) (rows df)\<rparr>"
proof -
  have "map (\<lambda>(r, v). put_cell r i v) (zip (rows df) (map f (rows df))) = map (\<lambda>r. put_cell r i (f r)) (rows df)"
    using zip_same_map [where f = "\<lambda>(r, v). put_cell r i v" and g = "\<lambda>r. r" and h = f and xs = "rows df"] by simp
  with ix show ?thesis
    by (simp add: setitem_def with_label_def slot_def)
qed

lemma coerce_step:
  assumes "index_of c (columns df) = Some i"
  shows "sum_bind (getitem df c) (\<lambda>s. k (setitem df c (map (to_numeric p) s))) =
    k \<lparr>columns = columns df, rows = map (\<lambda>r. put_cell r i (to_numeric p (cell_at r i))) (rows df)\<rparr>"
proof -
  have "setitem df c (map (to_numeric p) (map (\<lambda>r. cell_at r i) (rows df))) =
    \<lparr>columns = columns df, rows = map (\<lambda>r. put_cell r i (to_numeric p (cell_at r i))) (rows df)\<rparr>"
    using setitem_existing [OF assms, where f = "\<lambda>r. to_numeric p (cell_at r i)"] by (simp add: o_def)
  then show ?thesis
    by (simp add: sum_bind_def getitem_at [OF assms])
qed

lemma convert_to_numeric_closed:
  assumes "index_of ''export_value'' cs = Some ie" "index_of ''growth'' cs = Some ig"
    "index_of ''world_rank'' cs = Some iw"
  shows "convert_to_numeric p \<lparr>columns = cs, rows = rs\<rparr> =
    Inr \<lparr>columns = cs, rows = map (coerce_row p ie ig iw) rs\<rparr>"
proof -
  let ?d0 = "\<lparr>columns = cs, rows = rs\<rparr>"
  let ?r1 = "map (\<lambda>r. put_cell r ie (to_numeric p (cell_at r ie))) rs"
  let ?r2 = "map (\<lambda>r. put_cell r ig (to_numeric p (cell_at r ig))) ?r1"
  let ?r3 = "map (\<lambda>r. put_cell r iw (to_numeric p (cell_at r iw))) ?r2"
  have "coerce_columns p [''export_value'', ''growth'', ''world_rank''] ?d0 =
      coerce_columns p [''growth'', ''world_rank''] \<lparr>columns = cs, rows = ?r1\<rparr>"
    using coerce_step [where df = ?d0 and c = "''export_value''" and i = ie] assms(1)
    by (simp del: index_of.simps)
  also have "\<dots> = coerce_columns p [''world_rank''] \<lparr>columns = cs, rows = ?r2\<rparr>"
    using coerce_step [where df = "\<lparr>columns = cs, rows = ?r1\<rparr>" and c = "''growth''" and i = ig] assms(2)
    by (simp del: index_of.simps)
  also have "\<dots> = Inr \<lparr>columns = cs, rows = ?r3\<rparr>"
    using coerce_step [where df = "\<lparr>columns = cs, rows = ?r2\<rparr>" and c = "''world_rank''" and i = iw] assms(3)
    by (simp del: index_of.simps)
  also have "?r3 = map (coerce_row p ie ig iw) rs"
    by (simp add: coerce_row_def Let_def o_def)
  finally show ?thesis by (simp only: convert_to_numeric_def)
qed

lemma loc_setitem_map:
  assumes "index_of c cs = Some i"
  shows "loc_setitem \<lparr>columns = cs, rows = map F R\<rparr> (map M R) c v =
    \<lparr>columns = cs, rows = map (\<lambda>r. if M r then put_cell (F r) i v else F r) R\<rparr>"
proof -
  have "map (\<lambda>(r, m). if m then put_cell r i v else r) (zip (map F R) (map M R)) =
      map (\<lambda>r. if M r then put_cell (F r) i v else F r) R"
    by (induction R) auto
  moreover have "slot cs c = i" "with_label cs c = cs"
    using assms by (simp_all add: slot_def with_label_def)
  ultimately show ?thesis
    by (simp add: loc_setitem_def cong: if_cong)
qed

lemma mask_and_map: "mask_and (map A R) (map B R) = map (\<lambda>r. A r \<and> B r) R"
  using zip_same_map [where f = "\<lambda>(a, b). a \<and> b" and g = A and h = B and xs = R]
  by (simp add: mask_and_def)

lemma setitem_scalar:
  "setitem \<lparr>columns = cs, rows = R\<rparr> c (replicate (length R) v) =
     \<lparr>columns = with_label cs c, rows = map (\<lambda>r. put_cell r (slot cs c) v) R\<rparr>"
  using zip_replicate_len [where f = "\<lambda>(r, x). put_cell r (slot cs c) x" and xs = R and v = v]
  by (simp add: setitem_def)

lemma select_rows_map:
  "select_rows \<lparr>columns = cs, rows = R\<rparr> (map P (map f R)) = \<lparr>columns = cs, rows = filter (\<lambda>r. P (f r)) R\<rparr>"
  using filter_zip_map [where P = "\<lambda>r. P (f r)" and xs = R] by (simp add: select_rows_def o_def)

lemma cell_at_coerce_row:
  assumes "ie \<noteq> ig" "ie \<noteq> iw" "ig \<noteq> iw"
  shows "cell_at (coerce_row p ie ig iw r) j =
    (if j = ie \<or> j = ig \<or> j = iw then to_numeric p (cell_at r j) else cell_at r j)"
  using assms by (auto simp: coerce_row_def Let_def cell_at_put_cell)

lemma numeric_col_same:
  assumes "index_of c cs = Some i"
    and "\<And>r. r \<in> set R \<Longrightarrow> cell_at (F r) i = cell_at r i"
    and "\<And>r. r \<in> set R \<Longrightarrow> \<not> is_Str (cell_at r i)"
  shows "numeric_col \<lparr>columns = cs, rows = map F R\<rparr> c = Inr (map (\<lambda>r. float_of (cell_at r i)) R)"
proof -
  have "map (\<lambda>r. cell_at r i) (map F R) = map (\<lambda>r. cell_at r i) R"
    using assms(2) by simp
  then have "getitem \<lparr>columns = cs, rows = map F R\<rparr> c = Inr (map (\<lambda>r. cell_at r i) R)"
    using assms(1) by (simp add: getitem_def)
  moreover have "\<not> list_ex is_Str (map (\<lambda>r. cell_at r i) R)"
    using assms(3) by (simp add: list_ex_iff)
  ultimately show ?thesis
    by (simp add: numeric_col_def sum_bind_def as_floats_def o_def)
qed

lemma classify_closed:
  assumes ie: "index_of ''export_value'' cs = Some ie"
    and ig: "index_of ''growth'' cs = Some ig"
    and ne: "\<And>r. r \<in> set R \<Longrightarrow> \<not> is_Str (cell_at r ie)"
    and ng: "\<And>r. r \<in> set R \<Longrightarrow> \<not> is_Str (cell_at r ig)"
  shows "classify \<lparr>columns = cs, rows = R\<rparr> =
    Inr \<lparr>columns = with_label cs ''strategy'',
         rows = map (label_row ie ig (slot cs ''strategy'')
                  (median (map (\<lambda>r. float_of (cell_at r ie)) R))) R\<rparr>"
proof -
  define cs' where "cs' = with_label cs ''strategy''"
  define s where "s = slot cs ''strategy''"
  define V where "V = (\<lambda>r. float_of (cell_at r ie))"
  define G where "G = (\<lambda>r. float_of (cell_at r ig))"
  define m where "m = median (map V R)"
  define F0 where "F0 = (\<lambda>r. put_cell r s (Str ''Watch''))"
  define F1 where "F1 = (\<lambda>r. if float_ge (V r) m \<and> float_ge (G r) (Some 0)
     then put_cell (F0 r) s (Str ''Invest'') else F0 r)"
  define F2 where "F2 = (\<lambda>r. if float_lt (V r) m \<and> float_ge (G r) (Some 0)
     then put_cell (F1 r) s (Str ''Nurture'') else F1 r)"
  define F3 where "F3 = (\<lambda>r. if float_ge (V r) m \<and> float_lt (G r) (Some 0)
     then put_cell (F2 r) s (Str ''Defend'') else F2 r)"
  have sie: "s \<noteq> ie" and sig: "s \<noteq> ig"
    using slot_neq [OF ie, of "''strategy''"] slot_neq [OF ig, of "''strategy''"]
    by (simp_all add: s_def)
  have ie': "index_of ''export_value'' cs' = Some ie" and ig': "index_of ''growth'' cs' = Some ig"
    and is': "index_of ''strategy'' cs' = Some s"
    using ie ig by (simp_all add: cs'_def s_def index_of_with_label del: index_of.simps)
  have keep: "cell_at (F0 r) j = cell_at r j" "cell_at (F1 r) j = cell_at r j"
    "cell_at (F2 r) j = cell_at r j" if "j \<noteq> s" for r j
    using that by (simp_all add: F0_def F1_def F2_def cell_at_put_cell)
  have e0: "numeric_col \<lparr>columns = cs, rows = R\<rparr> ''export_value'' = Inr (map V R)"
    using numeric_col_same [OF ie, where F = "\<lambda>r. r" and R = R] ne by (simp add: V_def)
  have t0: "setitem \<lparr>columns = cs, rows = R\<rparr> ''strategy'' (replicate (length R) (Str ''Watch'')) =
      \<lparr>columns = cs', rows = map F0 R\<rparr>"
    by (simp add: setitem_scalar cs'_def s_def F0_def)
  have ev: "numeric_col \<lparr>columns = cs', rows = map F R\<rparr> ''export_value'' = Inr (map V R)"
    if "\<And>r. cell_at (F r) ie = cell_at r ie" for F
    using numeric_col_same [OF ie', where F = F and R = R] ne that by (simp add: V_def)
  have gr: "numeric_col \<lparr>columns = cs', rows = map F R\<rparr> ''growth'' = Inr (map G R)"
    if "\<And>r. cell_at (F r) ig = cell_at r ig" for F
    using numeric_col_same [OF ig', where F = F and R = R] ng that by (simp add: G_def)
  have l1: "loc_setitem \<lparr>columns = cs', rows = map F0 R\<rparr>
      (mask_and (ge_scalar (map V R) m) (ge_scalar (map G R) (Some 0))) ''strategy'' (Str ''Invest'') =
      \<lparr>columns = cs', rows = map F1 R\<rparr>"
    using loc_setitem_map [OF is', where F = F0 and R = R
        and M = "\<lambda>r. float_ge (V r) m \<and> float_ge (G r) (Some 0)"]
    by (simp add: ge_scalar_def mask_and_map o_def F1_def)
  have l2: "loc_setitem \<lparr>columns = cs', rows = map F1 R\<rparr>
      (mask_and (lt_scalar (map V R) m) (ge_scalar (map G R) (Some 0))) ''strategy'' (Str ''Nurture'') =
      \<lparr>columns = cs', rows = map F2 R\<rparr>"
    using loc_setitem_map [OF is', where F = F1 and R = R
        and M = "\<lambda>r. float_lt (V r) m \<and> float_ge (G r) (Some 0)"]
    by (simp add: ge_scalar_def lt_scalar_def mask_and_map o_def F2_def)
  have l3: "loc_setitem \<lparr>columns = cs', rows = map F2 R\<rparr>
      (mask_and (ge_scalar (map V R) m) (lt_scalar (map G R) (Some 0))) ''strategy'' (Str ''Defend'') =
      \<lparr>columns = cs', rows = map F3 R\<rparr>"
    using loc_setitem_map [OF is', where F = F2 and R = R
        and M = "\<lambda>r. float_ge (V r) m \<and> float_lt (G r) (Some 0)"]
    by (simp add: ge_scalar_def lt_scalar_def mask_and_map o_def F3_def)
  have "F3 r = label_row ie ig s m r" for r
  proof -
    have "label_row ie ig s m r = put_cell r s (Str (quadrant (V r) (G r) m))"
      by (simp add: label_row_def V_def G_def)
    then show ?thesis
      by (cases "V r"; cases "G r"; cases m)
        (auto simp: F3_def F2_def F1_def F0_def quadrant_def put_cell_twice)
  qed
  then have fin: "F3 = label_row ie ig s m"
    by (simp add: fun_eq_iff)
  have "classify \<lparr>columns = cs, rows = R\<rparr> = Inr \<lparr>columns = cs', rows = map F3 R\<rparr>"
    unfolding classify_def
    by (simp only: e0 sum_bind_def sum.case Let_def frame.simps t0 m_def [symmetric]
        ev [OF keep(1) [OF sie [symmetric]]] gr [OF keep(1) [OF sig [symmetric]]] l1
        ev [OF keep(2) [OF sie [symmetric]]] gr [OF keep(2) [OF sig [symmetric]]] l2
        ev [OF keep(3) [OF sie [symmetric]]] gr [OF keep(3) [OF sig [symmetric]]] l3)
  then show ?thesis
    by (simp add: fin cs'_def s_def m_def V_def)
qed

lemma names_neq:
  "''country'' \<noteq> ''export_value''" "''country'' \<noteq> ''growth''" "''country'' \<noteq> ''world_rank''"
  "''export_value'' \<noteq> ''growth''" "''export_value'' \<noteq> ''world_rank''" "''growth'' \<noteq> ''world_rank''"
  "''country'' \<noteq> ''strategy''" "''export_value'' \<noteq> ''strategy''" "''growth'' \<noteq> ''strategy''"
  "''world_rank'' \<noteq> ''strategy''"
  by simp_all

lemma rename_frame: "rename df = \<lparr>columns = map rename_label (columns df), rows = rows df\<rparr>"
  by (simp add: rename_def)

lemma remove_aggregate_closed:
  assumes "index_of ''country'' cs = Some ic"
  shows "remove_aggregate \<lparr>columns = cs, rows = rs\<rparr> = Inr \<lparr>columns = cs, rows = filter (keep_row ic) rs\<rparr>"
proof -
  have "getitem \<lparr>columns = cs, rows = rs\<rparr> ''country'' = Inr (map (\<lambda>r. cell_at r ic) rs)"
    using assms by (simp add: getitem_def)
  moreover have "select_rows \<lparr>columns = cs, rows = rs\<rparr>
      (map (\<lambda>c. c \<noteq> Str ''World'') (map (\<lambda>r. cell_at r ic) rs)) =
      \<lparr>columns = cs, rows = filter (keep_row ic) rs\<rparr>"
    using select_rows_map [where P = "\<lambda>c. c \<noteq> Str ''World''" and f = "\<lambda>r. cell_at r ic"]
    by (simp add: keep_row_def [abs_def])
  ultimately show ?thesis
    by (simp only: remove_aggregate_def sum_bind_def sum.case)
qed

lemma load_data_closed:
  assumes ic: "index_of ''country'' (map rename_label (columns df)) = Some ic"
    and ie: "index_of ''export_value'' (map rename_label (columns df)) = Some ie"
    and ig: "index_of ''growth'' (map rename_label (columns df)) = Some ig"
    and iw: "index_of ''world_rank'' (map rename_label (columns df)) = Some iw"
  shows "load_data p df =
    Inr \<lparr>columns = with_label (map rename_label (columns df)) ''strategy'',
         rows = loaded_rows p ic ie ig iw (slot (map rename_label (columns df)) ''strategy'') (rows df)\<rparr>"
proof -
  let ?cs = "map rename_label (columns df)"
  let ?K = "filter (keep_row ic) (rows df)"
  let ?R = "map (coerce_row p ie ig iw) ?K"
  have neq: "ie \<noteq> ig" "ie \<noteq> iw" "ig \<noteq> iw"
    using index_of_neq [OF ie ig] index_of_neq [OF ie iw] index_of_neq [OF ig iw]
    by (simp_all add: names_neq)
  have ne: "\<not> is_Str (cell_at r ie)" and ng: "\<not> is_Str (cell_at r ig)" if "r \<in> set ?R" for r
    using that as_floats_to_numeric neq
    by (auto simp: cell_at_coerce_row not_Str_to_numeric)
  have "load_data p df = sum_bind (convert_to_numeric p \<lparr>columns = ?cs, rows = ?K\<rparr>) classify"
    by (simp only: load_data_def rename_frame remove_aggregate_closed [OF ic] sum_bind_def sum.case)
  also have "\<dots> = classify \<lparr>columns = ?cs, rows = ?R\<rparr>"
    by (simp only: convert_to_numeric_closed [OF ie ig iw] sum_bind_def sum.case)
  also have "\<dots> = Inr \<lparr>columns = with_label ?cs ''strategy'',
      rows = map (label_row ie ig (slot ?cs ''strategy'')
        (median (map (\<lambda>r. float_of (cell_at r ie)) ?R))) ?R\<rparr>"
    using ne ng by (intro classify_closed [OF ie ig]) blast+
  finally show ?thesis
    by (simp only: loaded_rows_def Let_def)
qed

section \<open>Missing columns\<close>

lemma load_data_no_country:
  assumes "index_of ''country'' (map rename_label (columns df)) = None"
  shows "load_data p df = Inl (KeyError ''country'')"
  using assms
  by (simp add: load_data_def remove_aggregate_def rename_frame getitem_def sum_bind_def
      del: index_of.simps)

lemma convert_to_numeric_missing:
  assumes "index_of ''export_value'' cs = None \<and> k = ''export_value'' \<or>
     index_of ''export_value'' cs \<noteq> None \<and> index_of ''growth'' cs = None \<and> k = ''growth'' \<or>
     index_of ''export_value'' cs \<noteq> None \<and> index_of ''growth'' cs \<noteq> None \<and>
       index_of ''world_rank'' cs = None \<and> k = ''world_rank''"
  shows "convert_to_numeric p \<lparr>columns = cs, rows = rs\<rparr> = Inl (KeyError k)"
proof -
  have step: "coerce_columns p (c # rest) \<lparr>columns = cs, rows = R\<rparr> =
      coerce_columns p rest
        \<lparr>columns = cs, rows = map (\<lambda>r. put_cell r i (to_numeric p (cell_at r i))) R\<rparr>"
    if "index_of c cs = Some i" for c rest R i
    using coerce_step [where df = "\<lparr>columns = cs, rows = R\<rparr>" and c = c and i = i
        and k = "coerce_columns p rest" and p = p] that
    by (simp del: index_of.simps)
  have stop: "coerce_columns p (c # rest) \<lparr>columns = cs, rows = R\<rparr> = Inl (KeyError c)"
    if "index_of c cs = None" for c rest R
    using that by (simp add: getitem_def sum_bind_def del: index_of.simps)
  from assms show ?thesis
    unfolding convert_to_numeric_def
    by (elim disjE conjE) (auto simp: step stop simp del: index_of.simps coerce_columns.simps)
qed

lemma load_data_missing:
  assumes ic: "index_of ''country'' (map rename_label (columns df)) = Some ic"
    and "index_of ''export_value'' (map rename_label (columns df)) = None \<and> k = ''export_value'' \<or>
     index_of ''export_value'' (map rename_label (columns df)) \<noteq> None \<and>
       index_of ''growth'' (map rename_label (columns df)) = None \<and> k = ''growth'' \<or>
     index_of ''export_value'' (map rename_label (columns df)) \<noteq> None \<and>
       index_of ''growth'' (map rename_label (columns df)) \<noteq> None \<and>
       index_of ''world_rank'' (map rename_label (columns df)) = None \<and> k = ''world_rank''"
  shows "load_data p df = Inl (KeyError k)"
  by (simp only: load_data_def rename_frame remove_aggregate_closed [OF ic] sum_bind_def sum.case
      convert_to_numeric_missing [OF assms(2)])

lemma load_data_Inr_indices:
  assumes "load_data p df = Inr out"
  shows "\<exists>ic ie ig iw.
    index_of ''country'' (map rename_label (columns df)) = Some ic \<and>
    index_of ''export_value'' (map rename_label (columns df)) = Some ie \<and>
    index_of ''growth'' (map rename_label (columns df)) = Some ig \<and>
    index_of ''world_rank'' (map rename_label (columns df)) = Some iw"
proof -
  let ?cs = "map rename_label (columns df)"
  have "index_of ''country'' ?cs \<noteq> None"
    using assms load_data_no_country [of df p] by force
  then obtain ic where ic: "index_of ''country'' ?cs = Some ic"
    by blast
  have e: "index_of ''export_value'' ?cs \<noteq> None"
    using assms load_data_missing [OF ic, of "''export_value''" p] by force
  have g: "index_of ''growth'' ?cs \<noteq> None"
    using assms e load_data_missing [OF ic, of "''growth''" p] by force
  have w: "index_of ''world_rank'' ?cs \<noteq> None"
    using assms e g load_data_missing [OF ic, of "''world_rank''" p] by force
  from ic e g w show ?thesis
    by blast
qed

section \<open>The examples\<close>

lemma header_indices:
  "index_of ''country'' (map rename_label trade_map_header) = Some 0"
  "index_of ''export_value'' (map rename_label trade_map_header) = Some 1"
  "index_of ''growth'' (map rename_label trade_map_header) = Some 2"
  "index_of ''world_rank'' (map rename_label trade_map_header) = Some 3"
  "with_label (map rename_label trade_map_header) ''strategy'' =
     [''country'', ''export_value'', ''growth'', ''world_rank'', ''strategy'']"
  "slot (map rename_label trade_map_header) ''strategy'' = 4"
  by (simp_all add: trade_map_header_def rename_label_def rename_columns_def with_label_def slot_def)

lemma median_four: "median [Some 10, Some 20, Some 30, Some 40] = Some 25"
  by (simp add: median_def dropna_def Let_def)

lemma columns_four: "columns four_markets = trade_map_header"
  by (simp add: four_markets_def)

lemma load_four_markets: "load_data p four_markets = Inr four_markets_loaded"
proof -
  have "loaded_rows p 0 1 2 3 4 (rows four_markets) = rows four_markets_loaded"
    by (simp add: four_markets_def four_markets_loaded_def loaded_rows_def keep_row_def
        coerce_row_def cell_at_def put_cell_def median_four label_row_def quadrant_def)
  moreover have "columns four_markets = trade_map_header"
    by (simp add: four_markets_def)
  ultimately show ?thesis
    using load_data_closed [of four_markets 0 1 2 3 p]
    by (simp add: header_indices four_markets_loaded_def)
qed

lemma load_text_markets: "load_data read_number text_markets = Inr text_markets_loaded"
proof -
  have "read_number ''10'' = Some 10" "read_number ''50'' = Some 50" "read_number ''N/A'' = None"
    by (simp_all add: read_number_def digit_of_def)
  moreover have "median [Some 10, None, Some 50] = Some 30"
    by (simp add: median_def dropna_def Let_def)
  ultimately have "loaded_rows read_number 0 1 2 3 4 (rows text_markets) = rows text_markets_loaded"
    by (simp add: text_markets_def text_markets_loaded_def loaded_rows_def keep_row_def
        coerce_row_def cell_at_def put_cell_def label_row_def quadrant_def)
  moreover have "columns text_markets = trade_map_header"
    by (simp add: text_markets_def)
  ultimately show ?thesis
    using load_data_closed [of text_markets 0 1 2 3 read_number]
    by (simp add: header_indices text_markets_loaded_def)
qed

lemma well_formed_examples: "well_formed four_markets" "well_formed text_markets"
  by (simp_all add: well_formed_def four_markets_def text_markets_def trade_map_header_def
      rename_label_def rename_columns_def)

section \<open>The columns of the loaded frame\<close>

lemma load_data_columns:
  assumes "load_data p df = Inr out"
  shows "\<exists>ev g. getitem out ''export_value'' = Inr ev \<and> getitem out ''growth'' = Inr g \<and>
    length ev = length (rows out) \<and> length g = length (rows out) \<and>
    \<not> list_ex is_Str ev \<and> \<not> list_ex is_Str g \<and>
    getitem out ''strategy'' =
      Inr (map (\<lambda>(v, y). Str (quadrant (float_of v) (float_of y) (median (map float_of ev))))
             (zip ev g))"
proof -
  let ?cs = "map rename_label (columns df)"
  obtain ic ie ig iw where ic: "index_of ''country'' ?cs = Some ic"
    and ie: "index_of ''export_value'' ?cs = Some ie"
    and ig: "index_of ''growth'' ?cs = Some ig"
    and iw: "index_of ''world_rank'' ?cs = Some iw"
    using load_data_Inr_indices [OF assms] by blast
  define s where "s = slot ?cs ''strategy''"
  define R where "R = map (coerce_row p ie ig iw) (filter (keep_row ic) (rows df))"
  define m where "m = median (map (\<lambda>r. float_of (cell_at r ie)) R)"
  have out: "out = \<lparr>columns = with_label ?cs ''strategy'', rows = map (label_row ie ig s m) R\<rparr>"
    using assms load_data_closed [OF ic ie ig iw, of p]
    by (simp add: loaded_rows_def Let_def s_def R_def m_def)
  have neq: "ie \<noteq> ig" "ie \<noteq> iw" "ig \<noteq> iw" "s \<noteq> ie" "s \<noteq> ig"
    using index_of_neq [OF ie ig] index_of_neq [OF ie iw] index_of_neq [OF ig iw]
      slot_neq [OF ie, of "''strategy''"] slot_neq [OF ig, of "''strategy''"]
    by (simp_all add: s_def)
  have ix: "index_of ''export_value'' (with_label ?cs ''strategy'') = Some ie"
    "index_of ''growth'' (with_label ?cs ''strategy'') = Some ig"
    "index_of ''strategy'' (with_label ?cs ''strategy'') = Some s"
    using ie ig by (simp_all add: index_of_with_label s_def del: index_of.simps)
  define ev where "ev = map (\<lambda>r. cell_at r ie) R"
  define g where "g = map (\<lambda>r. cell_at r ig) R"
  have gev: "getitem out ''export_value'' = Inr ev" and gg: "getitem out ''growth'' = Inr g"
    using neq by (simp_all add: getitem_def ix out ev_def g_def
        label_row_def cell_at_put_cell o_def del: index_of.simps)
  have "\<not> is_Str (cell_at r ie) \<and> \<not> is_Str (cell_at r ig)" if "r \<in> set R" for r
    using that neq by (auto simp: R_def cell_at_coerce_row not_Str_to_numeric)
  then have ns: "\<not> list_ex is_Str ev" "\<not> list_ex is_Str g"
    by (simp_all add: list_ex_iff ev_def g_def)
  have mm: "m = median (map float_of ev)"
    by (simp add: m_def ev_def o_def)
  have "getitem out ''strategy'' =
      Inr (map (\<lambda>r. Str (quadrant (float_of (cell_at r ie)) (float_of (cell_at r ig)) m)) R)"
    by (simp add: getitem_def ix out label_row_def cell_at_put_cell o_def del: index_of.simps)
  also have "map (\<lambda>r. Str (quadrant (float_of (cell_at r ie)) (float_of (cell_at r ig)) m)) R =
      map (\<lambda>(v, y). Str (quadrant (float_of v) (float_of y) m)) (zip ev g)"
    unfolding ev_def g_def by (simp add: zip_same_map)
  finally show ?thesis
    using gev gg ns by (auto simp: mm out ev_def g_def)
qed

lemma load_data_by_rows:
  assumes ic: "index_of ''country'' (map rename_label (columns df)) = Some ic"
    and ie: "index_of ''export_value'' (map rename_label (columns df)) = Some ie"
    and ig: "index_of ''growth'' (map rename_label (columns df)) = Some ig"
    and iw: "index_of ''world_rank'' (map rename_label (columns df)) = Some iw"
    and K: "K = filter (keep_row ic) (rows df)"
    and m: "m = median (map (\<lambda>r. float_of (to_numeric p (cell_at r ie))) K)"
  shows "\<exists>out. load_data p df = Inr out \<and> length (rows out) = length K \<and>
    getitem out ''country'' = Inr (map (\<lambda>r. cell_at r ic) K) \<and>
    getitem out ''export_value'' = Inr (map (\<lambda>r. to_numeric p (cell_at r ie)) K) \<and>
    getitem out ''growth'' = Inr (map (\<lambda>r. to_numeric p (cell_at r ig)) K) \<and>
    getitem out ''world_rank'' = Inr (map (\<lambda>r. to_numeric p (cell_at r iw)) K) \<and>
    getitem out ''strategy'' =
      Inr (map (\<lambda>r. Str (quadrant (float_of (to_numeric p (cell_at r ie)))
                           (float_of (to_numeric p (cell_at r ig))) m)) K)"
proof -
  let ?cs = "map rename_label (columns df)"
  define s where "s = slot ?cs ''strategy''"
  define cs' where "cs' = with_label ?cs ''strategy''"
  define m' where "m' = median (map (\<lambda>r. float_of (cell_at r ie)) (map (coerce_row p ie ig iw) K))"
  define out where "out = \<lparr>columns = cs', rows = map (label_row ie ig s m') (map (coerce_row p ie ig iw) K)\<rparr>"
  have ld: "load_data p df = Inr out"
    using load_data_closed [OF ic ie ig iw, of p]
    by (simp add: loaded_rows_def Let_def s_def K out_def cs'_def m'_def)
  have neq: "ie \<noteq> ig" "ie \<noteq> iw" "ig \<noteq> iw" "ic \<noteq> ie" "ic \<noteq> ig" "ic \<noteq> iw"
    "s \<noteq> ic" "s \<noteq> ie" "s \<noteq> ig" "s \<noteq> iw"
    using index_of_neq [OF ie ig] index_of_neq [OF ie iw] index_of_neq [OF ig iw]
      index_of_neq [OF ic ie] index_of_neq [OF ic ig] index_of_neq [OF ic iw]
      slot_neq [OF ic, of "''strategy''"] slot_neq [OF ie, of "''strategy''"]
      slot_neq [OF ig, of "''strategy''"] slot_neq [OF iw, of "''strategy''"]
    by (simp_all add: s_def)
  have ix: "index_of ''country'' cs' = Some ic" "index_of ''export_value'' cs' = Some ie"
    "index_of ''growth'' cs' = Some ig" "index_of ''world_rank'' cs' = Some iw"
    "index_of ''strategy'' cs' = Some s"
    using ic ie ig iw by (simp_all add: cs'_def index_of_with_label s_def del: index_of.simps)
  have cells: "cell_at (label_row ie ig s m' (coerce_row p ie ig iw r)) j =
      (if j = s then Str (quadrant (float_of (to_numeric p (cell_at r ie)))
                           (float_of (to_numeric p (cell_at r ig))) m')
       else if j = ie \<or> j = ig \<or> j = iw then to_numeric p (cell_at r j) else cell_at r j)" for r j
    using neq by (simp add: label_row_def cell_at_put_cell cell_at_coerce_row)
  have mm: "m' = m"
    using neq by (simp add: m'_def m o_def cell_at_coerce_row)
  show ?thesis
    using neq neq [symmetric]
    by (intro exI [of _ out])
      (simp add: ld out_def getitem_def ix cells [unfolded mm] o_def mm del: index_of.simps)
qed

lemma median_Some:
  assumes "Some x \<in> set xs"
  shows "\<exists>m. median xs = Some m"
proof -
  have "x \<in> set (dropna xs)"
    using assms by (force simp: dropna_def)
  then have "length (sort (dropna xs)) \<noteq> 0"
    by (cases "dropna xs") auto
  then show ?thesis
    unfolding median_def Let_def by metis
qed

lemma columns_rename: "columns (rename df) = map rename_label (columns df)"
  by (simp add: rename_def)

lemma filter_nth_take:
  assumes "i < length xs" and "P (xs ! i)"
  shows "length (filter P (take i xs)) < length (filter P xs) \<and>
    filter P xs ! length (filter P (take i xs)) = xs ! i"
proof -
  have "xs = take i xs @ xs ! i # drop (Suc i) xs"
    using assms(1) by (simp add: id_take_nth_drop)
  then have "filter P xs = filter P (take i xs) @ xs ! i # filter P (drop (Suc i) xs)"
    using assms(2) by (metis filter.simps(2) filter_append)
  then show ?thesis
    by (simp add: nth_append)
qed

lemma dropna_skip:
  assumes "j < length ev" and "ev ! j = NaN"
  shows "dropna (map float_of (take j ev @ drop (Suc j) ev)) = dropna (map float_of ev)"
proof -
  have "ev = take j ev @ NaN # drop (Suc j) ev"
    using assms by (metis id_take_nth_drop)
  then have "dropna (map float_of ev) = dropna (map float_of (take j ev @ NaN # drop (Suc j) ev))"
    by simp
  then show ?thesis
    by (simp add: dropna_def)
qed

lemma total_exports_eq:
  assumes "getitem out ''export_value'' = Inr (map (to_numeric p) cs)"
  shows "total_exports out = Inr (sum_list (dropna (map float_of (map (to_numeric p) cs))))"
  using assms as_floats_to_numeric [of p "\<lambda>c. c" cs]
  by (simp add: total_exports_def numeric_col_def sum_bind_def o_def)

lemma median_all_missing:
  assumes "\<And>x. x \<in> set xs \<Longrightarrow> x = None"
  shows "median xs = None"
proof -
  have "filter (\<lambda>x. x \<noteq> None) xs = []"
    using assms by (auto simp: filter_empty_conv)
  then show ?thesis
    by (simp add: median_def dropna_def)
qed

lemma header_columns:
  "columns (rename \<lparr>columns = trade_map_header, rows = rs\<rparr>) = map rename_label trade_map_header"
  by (simp add: rename_def)

lemma map_filter_pointwise:
  assumes "length xs = length ys"
    and "\<And>i. i < length xs \<Longrightarrow> P (xs ! i) = P (ys ! i) \<and> f (xs ! i) = f (ys ! i)"
  shows "map f (filter P xs) = map f (filter P ys)"
  using assms
proof (induction xs ys rule: list_induct2)
  case Nil
  then show ?case by simp
next
  case (Cons x xs y ys)
  have "P x = P y \<and> f x = f y"
    using Cons.prems [of 0] by simp
  moreover have "map f (filter P xs) = map f (filter P ys)"
    using Cons.prems [of "Suc i" for i] by (intro Cons.IH) simp
  ultimately show ?case
    by simp
qed

lemma load_data_error_by_columns:
  assumes "columns df' = columns df" and "load_data p df = Inl e"
  shows "load_data p df' = Inl e"
proof -
  let ?cs = "map rename_label (columns df)"
  consider (a) "index_of ''country'' ?cs = None"
    | (b) ic k where "index_of ''country'' ?cs = Some ic"
        "index_of ''export_value'' ?cs = None \<and> k = ''export_value'' \<or>
         index_of ''export_value'' ?cs \<noteq> None \<and> index_of ''growth'' ?cs = None \<and> k = ''growth'' \<or>
         index_of ''export_value'' ?cs \<noteq> None \<and> index_of ''growth'' ?cs \<noteq> None \<and>
           index_of ''world_rank'' ?cs = None \<and> k = ''world_rank''"
    | (c) ic ie ig iw where "index_of ''country'' ?cs = Some ic"
        "index_of ''export_value'' ?cs = Some ie" "index_of ''growth'' ?cs = Some ig"
        "index_of ''world_rank'' ?cs = Some iw"
    by (cases "index_of ''country'' ?cs"; cases "index_of ''export_value'' ?cs";
        cases "index_of ''growth'' ?cs"; cases "index_of ''world_rank'' ?cs") auto
  then show ?thesis
  proof cases
    case a
    then show ?thesis
      using load_data_no_country [of df p] load_data_no_country [of df' p] assms by simp
  next
    case b
    then show ?thesis
      using load_data_missing [of df ic k p] load_data_missing [of df' ic k p] assms by simp
  next
    case c
    then show ?thesis
      using load_data_closed [of df ic ie ig iw p] assms(2) by simp
  qed
qed

lemma median_mset:
  assumes "mset xs = mset ys"
  shows "median xs = median ys"
proof -
  have "mset (dropna xs) = mset (dropna ys)"
    by (simp add: dropna_def assms)
  then have "sort (dropna xs) = sort (dropna ys)"
    by (intro properties_for_sort) simp_all
  then show ?thesis
    by (simp add: median_def)
qed

lemma loaded_rows_mset:
  assumes "mset rs' = mset rs"
  shows "mset (loaded_rows p ic ie ig iw s rs') = mset (loaded_rows p ic ie ig iw s rs)"
proof -
  have "median (map (\<lambda>r. float_of (cell_at r ie))
          (map (coerce_row p ie ig iw) (filter (keep_row ic) rs'))) =
      median (map (\<lambda>r. float_of (cell_at r ie))
          (map (coerce_row p ie ig iw) (filter (keep_row ic) rs)))"
    by (rule median_mset) (simp add: assms)
  then show ?thesis
    by (simp add: loaded_rows_def Let_def assms)
qed

section \<open>The claims\<close>

text \<open>
  C1. In the loaded frame, a row whose export value \<open>x\<close> and growth \<open>y\<close> are both
  numbers is labelled by the quadrant rule against the median \<open>m\<close> of the export values
  that are not missing: Invest for \<open>x \<ge> m\<close> and \<open>y \<ge> 0\<close>, Nurture for \<open>x < m\<close> and
  \<open>y \<ge> 0\<close>, Defend for \<open>x \<ge> m\<close> and \<open>y < 0\<close>, Watch for \<open>x < m\<close> and \<open>y < 0\<close>.
  Exactly one of the four conditions holds. Reordering the rows of the input reorders
  the labelled rows of the result and changes nothing else.
\<close>

theorem quadrant_rule_holds:
  assumes "well_formed df" and "load_data p df = Inr out"
  shows "\<exists>ev g st. getitem out ''export_value'' = Inr ev \<and> getitem out ''growth'' = Inr g \<and>
    getitem out ''strategy'' = Inr st \<and>
    (\<forall>i x y. i < length (rows out) \<and> ev ! i = Num x \<and> g ! i = Num y \<longrightarrow>
       (\<exists>m. median (map float_of ev) = Some m \<and>
          (m \<le> x \<and> 0 \<le> y \<longrightarrow> st ! i = Str ''Invest'') \<and>
          (x < m \<and> 0 \<le> y \<longrightarrow> st ! i = Str ''Nurture'') \<and>
          (m \<le> x \<and> y < 0 \<longrightarrow> st ! i = Str ''Defend'') \<and>
          (x < m \<and> y < 0 \<longrightarrow> st ! i = Str ''Watch'') \<and>
          length (filter id [m \<le> x \<and> 0 \<le> y, x < m \<and> 0 \<le> y, m \<le> x \<and> y < 0, x < m \<and> y < 0]) = 1)) \<and>
    (\<forall>df'. columns df' = columns df \<and> mset (rows df') = mset (rows df) \<longrightarrow>
       (\<exists>out'. load_data p df' = Inr out' \<and> columns out' = columns out \<and>
          mset (rows out') = mset (rows out)))"
proof -
  obtain ev g where ev: "getitem out ''export_value'' = Inr ev"
    and g: "getitem out ''growth'' = Inr g"
    and len: "length ev = length (rows out)" "length g = length (rows out)"
    and st: "getitem out ''strategy'' =
      Inr (map (\<lambda>(v, y). Str (quadrant (float_of v) (float_of y) (median (map float_of ev))))
             (zip ev g))"
    using load_data_columns [OF assms(2)] by blast
  let ?st = "map (\<lambda>(v, y). Str (quadrant (float_of v) (float_of y) (median (map float_of ev))))
             (zip ev g)"
  have rule: "\<exists>m. median (map float_of ev) = Some m \<and>
          (m \<le> x \<and> 0 \<le> y \<longrightarrow> ?st ! i = Str ''Invest'') \<and>
          (x < m \<and> 0 \<le> y \<longrightarrow> ?st ! i = Str ''Nurture'') \<and>
          (m \<le> x \<and> y < 0 \<longrightarrow> ?st ! i = Str ''Defend'') \<and>
          (x < m \<and> y < 0 \<longrightarrow> ?st ! i = Str ''Watch'') \<and>
          length (filter id [m \<le> x \<and> 0 \<le> y, x < m \<and> 0 \<le> y, m \<le> x \<and> y < 0, x < m \<and> y < 0]) = 1"
    if i: "i < length (rows out)" and x: "ev ! i = Num x" and y: "g ! i = Num y" for i x y
  proof -
    have "Some x \<in> set (map float_of ev)"
      using i x len by (metis float_of.simps(1) in_set_conv_nth length_map nth_map)
    then obtain m where m: "median (map float_of ev) = Some m"
      using median_Some by blast
    have "?st ! i = Str (quadrant (Some x) (Some y) (Some m))"
      using i x y len m by simp
    then show ?thesis
      using m by (auto simp: quadrant_def)
  qed
  have perm: "\<exists>out'. load_data p df' = Inr out' \<and> columns out' = columns out \<and>
          mset (rows out') = mset (rows out)"
    if "columns df' = columns df" "mset (rows df') = mset (rows df)" for df'
  proof -
    obtain ic ie ig iw where ix: "index_of ''country'' (map rename_label (columns df)) = Some ic"
      "index_of ''export_value'' (map rename_label (columns df)) = Some ie"
      "index_of ''growth'' (map rename_label (columns df)) = Some ig"
      "index_of ''world_rank'' (map rename_label (columns df)) = Some iw"
      using load_data_Inr_indices [OF assms(2)] by blast
    have "load_data p df' =
        Inr \<lparr>columns = with_label (map rename_label (columns df)) ''strategy'',
             rows = loaded_rows p ic ie ig iw (slot (map rename_label (columns df)) ''strategy'')
               (rows df')\<rparr>"
      using load_data_closed [of df' ic ie ig iw p] ix by (simp only: that(1))
    moreover have "out =
        \<lparr>columns = with_label (map rename_label (columns df)) ''strategy'',
         rows = loaded_rows p ic ie ig iw (slot (map rename_label (columns df)) ''strategy'')
           (rows df)\<rparr>"
      using load_data_closed [OF ix, of p] assms(2) by simp
    ultimately show ?thesis
      using loaded_rows_mset [OF that(2)] by simp
  qed
  show ?thesis
  proof (intro exI conjI)
    show "getitem out ''export_value'' = Inr ev" "getitem out ''growth'' = Inr g"
      "getitem out ''strategy'' = Inr ?st"
      by (fact ev g st)+
  qed (use rule perm in blast)+
qed

theorem quadrant_rule_holds_witness:
  "well_formed four_markets \<and> load_data read_number four_markets = Inr four_markets_loaded \<and>
   getitem four_markets_loaded ''export_value'' = Inr [Num 10, Num 20, Num 30, Num 40] \<and>
   getitem four_markets_loaded ''growth'' = Inr [Num 1, Num (- 1), Num 2, Num (- 2)] \<and>
   median (map float_of [Num 10, Num 20, Num 30, Num 40]) = Some 25 \<and>
   getitem four_markets_loaded ''strategy'' =
     Inr [Str ''Nurture'', Str ''Watch'', Str ''Invest'', Str ''Defend''] \<and>
   columns four_markets_shuffled = columns four_markets \<and>
   mset (rows four_markets_shuffled) = mset (rows four_markets) \<and>
   (\<exists>out'. load_data read_number four_markets_shuffled = Inr out' \<and>
      mset (rows out') = mset (rows four_markets_loaded))"
proof -
  have e: "getitem four_markets_loaded ''export_value'' = Inr [Num 10, Num 20, Num 30, Num 40]"
    and g: "getitem four_markets_loaded ''growth'' = Inr [Num 1, Num (- 1), Num 2, Num (- 2)]"
    and s: "getitem four_markets_loaded ''strategy'' =
     Inr [Str ''Nurture'', Str ''Watch'', Str ''Invest'', Str ''Defend'']"
    by (simp_all add: getitem_def four_markets_loaded_def cell_at_def)
  have c: "columns four_markets_shuffled = columns four_markets"
    and m: "mset (rows four_markets_shuffled) = mset (rows four_markets)"
    by (simp_all add: four_markets_shuffled_def four_markets_def)
  have "\<exists>out'. load_data read_number four_markets_shuffled = Inr out' \<and>
      mset (rows out') = mset (rows four_markets_loaded)"
    using quadrant_rule_holds [OF well_formed_examples(1) load_four_markets [of read_number]] c m
    by blast
  then show ?thesis
    using well_formed_examples(1) load_four_markets [of read_number] e g s c m
    by (simp add: median_four)
qed

text \<open>
  C2. In the loaded frame, a row whose export value is missing (not a number) or whose
  growth is missing has the strategy Watch.
\<close>

theorem missing_is_watch:
  assumes "well_formed df" and "load_data p df = Inr out"
  shows "\<exists>ev g st. getitem out ''export_value'' = Inr ev \<and> getitem out ''growth'' = Inr g \<and>
    getitem out ''strategy'' = Inr st \<and>
    (\<forall>i < length (rows out). \<not> is_Num (ev ! i) \<or> \<not> is_Num (g ! i) \<longrightarrow> st ! i = Str ''Watch'')"
proof -
  obtain ev g where ev: "getitem out ''export_value'' = Inr ev"
    and g: "getitem out ''growth'' = Inr g"
    and len: "length ev = length (rows out)" "length g = length (rows out)"
    and st: "getitem out ''strategy'' =
      Inr (map (\<lambda>(v, y). Str (quadrant (float_of v) (float_of y) (median (map float_of ev))))
             (zip ev g))"
    using load_data_columns [OF assms(2)] by blast
  have "quadrant None y m = ''Watch''" "quadrant v None m = ''Watch''" for v y m
    by (simp_all add: quadrant_def split: option.splits)
  moreover have "float_of c = None" if "\<not> is_Num c" for c
    using that by (cases c) simp_all
  ultimately show ?thesis
    using ev g st len by auto
qed

theorem missing_is_watch_witness:
  "well_formed text_markets \<and> load_data read_number text_markets = Inr text_markets_loaded \<and>
   getitem text_markets_loaded ''export_value'' = Inr [Num 10, NaN, Num 50] \<and>
   getitem text_markets_loaded ''strategy'' = Inr [Str ''Nurture'', Str ''Watch'', Str ''Defend'']"
  using missing_is_watch [OF well_formed_examples(2) load_text_markets]
    well_formed_examples(2) load_text_markets
  by (simp add: getitem_def text_markets_loaded_def cell_at_def)

text \<open>
  C3. In every frame that \<open>load_data\<close> returns there is a \<open>strategy\<close> column with one
  entry per row, and every entry is one of the four labels Invest, Nurture, Defend and
  Watch: it is never missing and never anything else.
\<close>

theorem strategy_is_a_label:
  assumes "well_formed df" and "load_data p df = Inr out"
  shows "\<exists>st. getitem out ''strategy'' = Inr st \<and> length st = length (rows out) \<and>
    set st \<subseteq> {Str ''Invest'', Str ''Nurture'', Str ''Defend'', Str ''Watch''}"
proof -
  obtain ev g where len: "length ev = length (rows out)" "length g = length (rows out)"
    and st: "getitem out ''strategy'' =
      Inr (map (\<lambda>(v, y). Str (quadrant (float_of v) (float_of y) (median (map float_of ev))))
             (zip ev g))"
    using load_data_columns [OF assms(2)] by blast
  have "quadrant v y m \<in> {''Invest'', ''Nurture'', ''Defend'', ''Watch''}" for v y m
    by (simp add: quadrant_def split: option.splits)
  then have "set (map (\<lambda>(v, y). Str (quadrant (float_of v) (float_of y) (median (map float_of ev))))
             (zip ev g)) \<subseteq> {Str ''Invest'', Str ''Nurture'', Str ''Defend'', Str ''Watch''}"
    by auto
  with st len show ?thesis
    by (intro exI [of _ "map (\<lambda>(v, y). Str (quadrant (float_of v) (float_of y)
        (median (map float_of ev)))) (zip ev g)"]) simp
qed

theorem strategy_is_a_label_witness:
  "well_formed four_markets \<and> load_data read_number four_markets = Inr four_markets_loaded \<and>
   (\<exists>st. getitem four_markets_loaded ''strategy'' = Inr st \<and>
      length st = length (rows four_markets_loaded) \<and>
      set st \<subseteq> {Str ''Invest'', Str ''Nurture'', Str ''Defend'', Str ''Watch''})"
  using strategy_is_a_label [OF well_formed_examples(1) load_four_markets [of read_number]]
    well_formed_examples(1) load_four_markets [of read_number]
  by simp

text \<open>
  C4. When one of the four required columns is absent after renaming (the growth column,
  say), \<open>load_data\<close> fails: it returns the error raised for a required column that is
  absent, and no frame at all.
\<close>

theorem missing_column_fails:
  assumes "well_formed df" and "c \<in> set required_columns"
    and "c \<notin> set (columns (rename df))"
  shows "\<exists>k. k \<in> set required_columns \<and> k \<notin> set (columns (rename df)) \<and>
    load_data p df = Inl (KeyError k)"
proof -
  let ?cs = "map rename_label (columns df)"
  consider (a) "index_of ''country'' ?cs = None"
    | (b) ic where "index_of ''country'' ?cs = Some ic" "index_of ''export_value'' ?cs = None"
    | (c) ic where "index_of ''country'' ?cs = Some ic" "index_of ''export_value'' ?cs \<noteq> None"
        "index_of ''growth'' ?cs = None"
    | (d) ic where "index_of ''country'' ?cs = Some ic" "index_of ''export_value'' ?cs \<noteq> None"
        "index_of ''growth'' ?cs \<noteq> None" "index_of ''world_rank'' ?cs = None"
    | (e) "index_of ''country'' ?cs \<noteq> None" "index_of ''export_value'' ?cs \<noteq> None"
        "index_of ''growth'' ?cs \<noteq> None" "index_of ''world_rank'' ?cs \<noteq> None"
    by (cases "index_of ''country'' ?cs") blast+
  then show ?thesis
  proof cases
    case a
    then show ?thesis
      using load_data_no_country [of df p]
      by (intro exI [of _ "''country''"]) (simp add: required_columns_def columns_rename index_of_None)
  next
    case b
    then show ?thesis
      using load_data_missing [of df ic "''export_value''" p]
      by (intro exI [of _ "''export_value''"]) (simp add: required_columns_def columns_rename index_of_None)
  next
    case c
    then show ?thesis
      using load_data_missing [of df ic "''growth''" p]
      by (intro exI [of _ "''growth''"]) (simp add: required_columns_def columns_rename index_of_None)
  next
    case d
    then show ?thesis
      using load_data_missing [of df ic "''world_rank''" p]
      by (intro exI [of _ "''world_rank''"]) (simp add: required_columns_def columns_rename index_of_None)
  next
    case e
    then have "c \<in> set ?cs"
      using assms(2) by (auto simp: required_columns_def index_of_None)
    then show ?thesis
      using assms(3) by (simp add: columns_rename)
  qed
qed

theorem missing_column_fails_witness:
  "well_formed no_growth_markets \<and> ''growth'' \<in> set required_columns \<and>
   ''growth'' \<notin> set (columns (rename no_growth_markets)) \<and>
   load_data read_number no_growth_markets = Inl (KeyError ''growth'')"
proof -
  have cs: "columns (rename no_growth_markets) = [''country'', ''export_value'', ''world_rank'']"
    by (simp add: rename_def no_growth_markets_def rename_label_def rename_columns_def)
  have wf: "well_formed no_growth_markets"
    using cs by (simp add: well_formed_def columns_rename)
  have r: "''growth'' \<in> set required_columns"
    by (simp add: required_columns_def)
  have a: "''growth'' \<notin> set (columns (rename no_growth_markets))"
    by (simp add: cs)
  obtain k where "k \<in> set required_columns" "k \<notin> set (columns (rename no_growth_markets))"
    "load_data read_number no_growth_markets = Inl (KeyError k)"
    using missing_column_fails [OF wf r a] by blast
  moreover from this have "k = ''growth''"
    by (auto simp: cs required_columns_def)
  ultimately show ?thesis
    using wf r a by simp
qed

text \<open>
  C5. Take a row whose export value is text that the reader of numerals does not accept.
  Then \<open>load_data\<close> succeeds, and the rows it drops are the aggregate rows and no others.
  Unless the row is itself an aggregate row, it is in the loaded frame, at the position
  \<open>j\<close> it has among the rows that are not aggregates; its export value there is the
  missing marker; its strategy is Watch; and the total of the export values is the total
  over the other rows.
\<close>

theorem unparsable_value_is_missing:
  assumes "well_formed df"
    and ic: "index_of ''country'' (columns (rename df)) = Some ic"
    and ie: "index_of ''export_value'' (columns (rename df)) = Some ie"
    and g: "''growth'' \<in> set (columns (rename df))"
    and w: "''world_rank'' \<in> set (columns (rename df))"
    and i: "i < length (rows df)"
    and un: "cell_at (rows df ! i) ie = Str s" "p s = None"
    and j: "j = length (filter (\<lambda>r. cell_at r ic \<noteq> Str ''World'') (take i (rows df)))"
  shows "\<exists>out co ev st. load_data p df = Inr out \<and>
    length (rows out) = length (filter (\<lambda>r. cell_at r ic \<noteq> Str ''World'') (rows df)) \<and>
    getitem out ''country'' = Inr co \<and> getitem out ''export_value'' = Inr ev \<and>
    getitem out ''strategy'' = Inr st \<and>
    (cell_at (rows df ! i) ic \<noteq> Str ''World'' \<longrightarrow>
       j < length (rows out) \<and> co ! j = cell_at (rows df ! i) ic \<and>
       ev ! j = NaN \<and> st ! j = Str ''Watch'' \<and>
       total_exports out = Inr (sum_list (dropna (map float_of (take j ev @ drop (Suc j) ev)))))"
proof -
  let ?cs = "map rename_label (columns df)"
  define K where "K = filter (keep_row ic) (rows df)"
  define m where "m = median (map (\<lambda>r. float_of (to_numeric p (cell_at r ie))) K)"
  have "index_of ''growth'' ?cs \<noteq> None" "index_of ''world_rank'' ?cs \<noteq> None"
    using g w by (simp_all only: columns_rename index_of_None not_not)
  then obtain ig iw where ig: "index_of ''growth'' ?cs = Some ig"
    and iw: "index_of ''world_rank'' ?cs = Some iw"
    by blast
  have keep: "keep_row ic = (\<lambda>r. cell_at r ic \<noteq> Str ''World'')"
    by (simp add: keep_row_def fun_eq_iff)
  obtain out where ld: "load_data p df = Inr out" and len: "length (rows out) = length K"
    and co: "getitem out ''country'' = Inr (map (\<lambda>r. cell_at r ic) K)"
    and ev: "getitem out ''export_value'' = Inr (map (\<lambda>r. to_numeric p (cell_at r ie)) K)"
    and st: "getitem out ''strategy'' =
      Inr (map (\<lambda>r. Str (quadrant (float_of (to_numeric p (cell_at r ie)))
                           (float_of (to_numeric p (cell_at r ig))) m)) K)"
    using load_data_by_rows [OF ic [unfolded columns_rename] ie [unfolded columns_rename] ig iw K_def m_def]
    by blast
  have tot: "total_exports out =
      Inr (sum_list (dropna (map float_of (map (\<lambda>r. to_numeric p (cell_at r ie)) K))))"
    using total_exports_eq [of out p "map (\<lambda>r. cell_at r ie) K"] ev by (simp add: o_def)
  have row: "j < length (rows out) \<and> map (\<lambda>r. cell_at r ic) K ! j = cell_at (rows df ! i) ic \<and>
      map (\<lambda>r. to_numeric p (cell_at r ie)) K ! j = NaN \<and>
      map (\<lambda>r. Str (quadrant (float_of (to_numeric p (cell_at r ie)))
                           (float_of (to_numeric p (cell_at r ig))) m)) K ! j = Str ''Watch'' \<and>
      total_exports out = Inr (sum_list (dropna (map float_of
        (take j (map (\<lambda>r. to_numeric p (cell_at r ie)) K) @
         drop (Suc j) (map (\<lambda>r. to_numeric p (cell_at r ie)) K)))))"
    if nw: "cell_at (rows df ! i) ic \<noteq> Str ''World''"
  proof -
    have jK: "j < length K" and Kj: "K ! j = rows df ! i"
      using filter_nth_take [of i "rows df" "keep_row ic"] i nw
      by (simp_all add: K_def j keep)
    have evj: "map (\<lambda>r. to_numeric p (cell_at r ie)) K ! j = NaN"
      using jK Kj un by simp
    have "quadrant None y z = ''Watch''" for y z
      by (simp add: quadrant_def)
    then have stj: "map (\<lambda>r. Str (quadrant (float_of (to_numeric p (cell_at r ie)))
                           (float_of (to_numeric p (cell_at r ig))) m)) K ! j = Str ''Watch''"
      using jK Kj un by simp
    show ?thesis
      using len jK Kj evj stj tot dropna_skip [OF _ evj] by simp
  qed
  show ?thesis
  proof (intro exI conjI)
    show "load_data p df = Inr out"
      by (fact ld)
    show "length (rows out) = length (filter (\<lambda>r. cell_at r ic \<noteq> Str ''World'') (rows df))"
      using len by (simp add: K_def keep)
    show "getitem out ''country'' = Inr (map (\<lambda>r. cell_at r ic) K)"
      "getitem out ''export_value'' = Inr (map (\<lambda>r. to_numeric p (cell_at r ie)) K)"
      "getitem out ''strategy'' = Inr (map (\<lambda>r. Str (quadrant (float_of (to_numeric p (cell_at r ie)))
                           (float_of (to_numeric p (cell_at r ig))) m)) K)"
      by (fact co ev st)+
  qed (use row in blast)
qed

theorem unparsable_value_is_missing_witness:
  "well_formed text_markets \<and>
   index_of ''country'' (columns (rename text_markets)) = Some 0 \<and>
   index_of ''export_value'' (columns (rename text_markets)) = Some 1 \<and>
   cell_at (rows text_markets ! 2) 0 = Str ''Peru'' \<and>
   cell_at (rows text_markets ! 2) 1 = Str ''N/A'' \<and> read_number ''N/A'' = None \<and>
   (\<exists>out co ev st. load_data read_number text_markets = Inr out \<and> length (rows out) = 3 \<and>
      getitem out ''country'' = Inr co \<and> getitem out ''export_value'' = Inr ev \<and>
      getitem out ''strategy'' = Inr st \<and>
      co ! 1 = Str ''Peru'' \<and> ev ! 1 = NaN \<and> st ! 1 = Str ''Watch'' \<and>
      total_exports out = Inr (sum_list (dropna (map float_of (take 1 ev @ drop (Suc 1) ev)))) \<and>
      total_exports out = Inr 60)"
proof -
  have cs: "columns (rename text_markets) = map rename_label trade_map_header"
    by (simp add: rename_def text_markets_def)
  have ic: "index_of ''country'' (columns (rename text_markets)) = Some 0"
    and ie: "index_of ''export_value'' (columns (rename text_markets)) = Some 1"
    and g: "''growth'' \<in> set (columns (rename text_markets))"
    and w: "''world_rank'' \<in> set (columns (rename text_markets))"
    unfolding cs
    by (simp_all add: header_indices trade_map_header_def rename_label_def rename_columns_def)
  have i: "2 < length (rows text_markets)"
    and c: "cell_at (rows text_markets ! 2) 0 = Str ''Peru''"
    and v: "cell_at (rows text_markets ! 2) 1 = Str ''N/A''"
    and j: "1 = length (filter (\<lambda>r. cell_at r 0 \<noteq> Str ''World'') (take 2 (rows text_markets)))"
    and n: "length (filter (\<lambda>r. cell_at r 0 \<noteq> Str ''World'') (rows text_markets)) = 3"
    by (simp_all add: text_markets_def cell_at_def)
  have p: "read_number ''N/A'' = None"
    by (simp add: read_number_def digit_of_def)
  have t: "total_exports text_markets_loaded = Inr 60"
    by (simp add: total_exports_def numeric_col_def getitem_def sum_bind_def as_floats_def
        text_markets_loaded_def cell_at_def dropna_def)
  have nw: "cell_at (rows text_markets ! 2) 0 \<noteq> Str ''World''"
    by (simp add: c)
  show ?thesis
    using unparsable_value_is_missing [where df = text_markets and ic = 0 and ie = 1 and i = 2
        and s = "''N/A''" and p = read_number and j = 1,
        OF well_formed_examples(2) ic ie g w i v p j] nw
      well_formed_examples(2) ic ie c v p t
    by (auto simp: n load_text_markets)
qed

text \<open>
  C6. No row of the loaded frame has the country World. The loaded frame, and with it the
  median, depends on the rows that are not aggregate rows only: a table with the same
  columns and the same rows apart from its aggregate rows loads to the same frame.
\<close>

theorem aggregate_is_dropped:
  assumes "well_formed df" and "load_data p df = Inr out"
  shows "\<exists>co. getitem out ''country'' = Inr co \<and> Str ''World'' \<notin> set co \<and>
    (\<forall>df' ic. index_of ''country'' (columns (rename df)) = Some ic \<and>
       columns df' = columns df \<and>
       filter (\<lambda>r. cell_at r ic \<noteq> Str ''World'') (rows df') =
         filter (\<lambda>r. cell_at r ic \<noteq> Str ''World'') (rows df) \<longrightarrow>
       load_data p df' = Inr out)"
proof -
  let ?cs = "map rename_label (columns df)"
  obtain ic ie ig iw where ic: "index_of ''country'' ?cs = Some ic"
    and ie: "index_of ''export_value'' ?cs = Some ie"
    and ig: "index_of ''growth'' ?cs = Some ig"
    and iw: "index_of ''world_rank'' ?cs = Some iw"
    using load_data_Inr_indices [OF assms(2)] by blast
  have keep: "keep_row i = (\<lambda>r. cell_at r i \<noteq> Str ''World'')" for i
    by (simp add: keep_row_def fun_eq_iff)
  have co: "getitem out ''country'' = Inr (map (\<lambda>r. cell_at r ic) (filter (keep_row ic) (rows df)))"
    using load_data_by_rows [OF ic ie ig iw refl refl, of p] assms(2) by auto
  have "Str ''World'' \<notin> set (map (\<lambda>r. cell_at r ic) (filter (keep_row ic) (rows df)))"
    by (auto simp: keep_row_def)
  moreover have "load_data p df' = Inr out"
    if "columns df' = columns df" "filter (keep_row ic) (rows df') = filter (keep_row ic) (rows df)"
    for df'
    using load_data_closed [OF ic ie ig iw, of p] assms(2)
      load_data_closed [of df' ic ie ig iw p] ic ie ig iw that
    by (simp add: loaded_rows_def)
  ultimately show ?thesis
    using co ic by (auto simp: columns_rename keep)
qed

theorem aggregate_is_dropped_witness:
  "well_formed four_markets_two_aggregates \<and>
   load_data read_number four_markets_two_aggregates = Inr four_markets_loaded \<and>
   getitem four_markets_loaded ''country'' = Inr [Str ''Chad'', Str ''Peru'', Str ''Oman'', Str ''Fiji''] \<and>
   index_of ''country'' (columns (rename four_markets_two_aggregates)) = Some 0 \<and>
   columns four_markets = columns four_markets_two_aggregates \<and>
   filter (\<lambda>r. cell_at r 0 \<noteq> Str ''World'') (rows four_markets) =
     filter (\<lambda>r. cell_at r 0 \<noteq> Str ''World'') (rows four_markets_two_aggregates) \<and>
   load_data read_number four_markets = Inr four_markets_loaded"
proof -
  have wf: "well_formed four_markets_two_aggregates"
    by (simp add: well_formed_def four_markets_two_aggregates_def trade_map_header_def
        rename_label_def rename_columns_def)
  have c: "columns four_markets = columns four_markets_two_aggregates"
    and i: "index_of ''country'' (columns (rename four_markets_two_aggregates)) = Some 0"
    and f: "filter (\<lambda>r. cell_at r 0 \<noteq> Str ''World'') (rows four_markets) =
     filter (\<lambda>r. cell_at r 0 \<noteq> Str ''World'') (rows four_markets_two_aggregates)"
    by (simp_all add: four_markets_def four_markets_two_aggregates_def cell_at_def rename_def
        header_indices)
  have "loaded_rows read_number 0 1 2 3 4 (rows four_markets_two_aggregates) =
      rows four_markets_loaded"
    by (simp add: four_markets_two_aggregates_def four_markets_loaded_def loaded_rows_def
        keep_row_def coerce_row_def cell_at_def put_cell_def median_four label_row_def
        quadrant_def)
  then have ld: "load_data read_number four_markets_two_aggregates = Inr four_markets_loaded"
    using load_data_closed [of four_markets_two_aggregates 0 1 2 3 read_number]
    by (simp add: c [symmetric] columns_four header_indices four_markets_loaded_def)
  have co: "getitem four_markets_loaded ''country'' =
      Inr [Str ''Chad'', Str ''Peru'', Str ''Oman'', Str ''Fiji'']"
    by (simp add: getitem_def four_markets_loaded_def cell_at_def)
  obtain co' where "\<forall>df' ic.
      index_of ''country'' (columns (rename four_markets_two_aggregates)) = Some ic \<and>
      columns df' = columns four_markets_two_aggregates \<and>
      filter (\<lambda>r. cell_at r ic \<noteq> Str ''World'') (rows df') =
        filter (\<lambda>r. cell_at r ic \<noteq> Str ''World'') (rows four_markets_two_aggregates) \<longrightarrow>
      load_data read_number df' = Inr four_markets_loaded"
    using aggregate_is_dropped [OF wf ld] by blast
  then have "load_data read_number four_markets = Inr four_markets_loaded"
    using i c f by blast
  then show ?thesis
    using wf ld co i c f by simp
qed

text \<open>
  C7. When the loaded frame has the four export values 10, 20, 30, 40 and the growths
  1, -1, 2, -2, the median of the export values is 25 and the four rows are labelled
  Nurture, Watch, Invest, Defend in this order.
\<close>

theorem median_split_example:
  assumes "well_formed df" and "load_data p df = Inr out"
    and "getitem out ''export_value'' = Inr [Num 10, Num 20, Num 30, Num 40]"
    and "getitem out ''growth'' = Inr [Num 1, Num (- 1), Num 2, Num (- 2)]"
  shows "median (map float_of [Num 10, Num 20, Num 30, Num 40]) = Some 25 \<and>
    getitem out ''strategy'' = Inr [Str ''Nurture'', Str ''Watch'', Str ''Invest'', Str ''Defend'']"
proof -
  obtain ev g where ev: "getitem out ''export_value'' = Inr ev"
    and g: "getitem out ''growth'' = Inr g"
    and st: "getitem out ''strategy'' =
      Inr (map (\<lambda>(v, y). Str (quadrant (float_of v) (float_of y) (median (map float_of ev))))
             (zip ev g))"
    using load_data_columns [OF assms(2)] by blast
  have "ev = [Num 10, Num 20, Num 30, Num 40]" "g = [Num 1, Num (- 1), Num 2, Num (- 2)]"
    using ev g assms(3,4) by simp_all
  then show ?thesis
    using st by (simp add: median_four quadrant_def)
qed

theorem median_split_example_witness:
  "well_formed four_markets \<and> load_data read_number four_markets = Inr four_markets_loaded \<and>
   getitem four_markets_loaded ''export_value'' = Inr [Num 10, Num 20, Num 30, Num 40] \<and>
   getitem four_markets_loaded ''growth'' = Inr [Num 1, Num (- 1), Num 2, Num (- 2)] \<and>
   getitem four_markets_loaded ''strategy'' =
     Inr [Str ''Nurture'', Str ''Watch'', Str ''Invest'', Str ''Defend'']"
proof -
  have e: "getitem four_markets_loaded ''export_value'' = Inr [Num 10, Num 20, Num 30, Num 40]"
    and g: "getitem four_markets_loaded ''growth'' = Inr [Num 1, Num (- 1), Num 2, Num (- 2)]"
    by (simp_all add: getitem_def four_markets_loaded_def cell_at_def)
  show ?thesis
    using median_split_example [OF well_formed_examples(1) load_four_markets [of read_number] e g]
      well_formed_examples(1) load_four_markets [of read_number] e g
    by simp
qed


text \<open>
  C9. When the four required columns are there, \<open>load_data\<close> succeeds. If every row is
  the aggregate row, the loaded frame has no rows and the median is missing. If no
  numeric cell can be read, the median is missing, the three numeric columns hold the
  missing marker only and every strategy is Watch.
\<close>

theorem degenerate_tables_load:
  assumes "well_formed df"
    and ic: "index_of ''country'' (columns (rename df)) = Some ic"
    and ie: "index_of ''export_value'' (columns (rename df)) = Some ie"
    and ig: "index_of ''growth'' (columns (rename df)) = Some ig"
    and iw: "index_of ''world_rank'' (columns (rename df)) = Some iw"
  shows "\<exists>out ev g w st. load_data p df = Inr out \<and>
    getitem out ''export_value'' = Inr ev \<and> getitem out ''growth'' = Inr g \<and>
    getitem out ''world_rank'' = Inr w \<and> getitem out ''strategy'' = Inr st \<and>
    ((\<forall>r \<in> set (rows df). cell_at r ic = Str ''World'') \<longrightarrow>
       rows out = [] \<and> median (map float_of ev) = None) \<and>
    ((\<forall>r \<in> set (rows df). to_numeric p (cell_at r ie) = NaN \<and>
         to_numeric p (cell_at r ig) = NaN \<and> to_numeric p (cell_at r iw) = NaN) \<longrightarrow>
       median (map float_of ev) = None \<and> set ev \<subseteq> {NaN} \<and> set g \<subseteq> {NaN} \<and>
       set w \<subseteq> {NaN} \<and> set st \<subseteq> {Str ''Watch''})"
proof -
  define K where "K = filter (keep_row ic) (rows df)"
  define m where "m = median (map (\<lambda>r. float_of (to_numeric p (cell_at r ie))) K)"
  obtain out where ld: "load_data p df = Inr out" and len: "length (rows out) = length K"
    and ev: "getitem out ''export_value'' = Inr (map (\<lambda>r. to_numeric p (cell_at r ie)) K)"
    and g: "getitem out ''growth'' = Inr (map (\<lambda>r. to_numeric p (cell_at r ig)) K)"
    and w: "getitem out ''world_rank'' = Inr (map (\<lambda>r. to_numeric p (cell_at r iw)) K)"
    and st: "getitem out ''strategy'' =
      Inr (map (\<lambda>r. Str (quadrant (float_of (to_numeric p (cell_at r ie)))
                           (float_of (to_numeric p (cell_at r ig))) m)) K)"
    using load_data_by_rows [OF ic [unfolded columns_rename] ie [unfolded columns_rename]
        ig [unfolded columns_rename] iw [unfolded columns_rename] K_def m_def]
    by blast
  have a: "rows out = [] \<and> median (map float_of (map (\<lambda>r. to_numeric p (cell_at r ie)) K)) = None"
    if "\<forall>r \<in> set (rows df). cell_at r ic = Str ''World''"
  proof -
    have "K = []"
      using that by (auto simp: K_def keep_row_def filter_empty_conv)
    then show ?thesis
      using len by (simp add: median_def dropna_def)
  qed
  have b: "median (map float_of (map (\<lambda>r. to_numeric p (cell_at r ie)) K)) = None \<and>
      set (map (\<lambda>r. to_numeric p (cell_at r ie)) K) \<subseteq> {NaN} \<and>
      set (map (\<lambda>r. to_numeric p (cell_at r ig)) K) \<subseteq> {NaN} \<and>
      set (map (\<lambda>r. to_numeric p (cell_at r iw)) K) \<subseteq> {NaN} \<and>
      set (map (\<lambda>r. Str (quadrant (float_of (to_numeric p (cell_at r ie)))
                           (float_of (to_numeric p (cell_at r ig))) m)) K) \<subseteq> {Str ''Watch''}"
    if h: "\<forall>r \<in> set (rows df). to_numeric p (cell_at r ie) = NaN \<and>
         to_numeric p (cell_at r ig) = NaN \<and> to_numeric p (cell_at r iw) = NaN"
  proof -
    have k: "to_numeric p (cell_at r ie) = NaN \<and> to_numeric p (cell_at r ig) = NaN \<and>
        to_numeric p (cell_at r iw) = NaN" if "r \<in> set K" for r
      using that h by (simp add: K_def)
    have "median (map float_of (map (\<lambda>r. to_numeric p (cell_at r ie)) K)) = None"
      using k by (intro median_all_missing) auto
    moreover have "quadrant None y z = ''Watch''" for y z
      by (simp add: quadrant_def)
    ultimately show ?thesis
      using k by auto
  qed
  show ?thesis
    using ld ev g w st a b by (intro exI conjI) (assumption | blast)+
qed

theorem degenerate_tables_load_witness:
  "well_formed only_aggregate \<and> well_formed unread_markets \<and>
   map (\<lambda>r. cell_at r 0) (rows only_aggregate) = [Str ''World''] \<and>
   map (\<lambda>r. map (\<lambda>j. to_numeric read_number (cell_at r j)) [1, 2, 3]) (rows unread_markets) =
     [[NaN, NaN, NaN], [NaN, NaN, NaN]] \<and>
   (\<exists>out. load_data read_number only_aggregate = Inr out \<and> rows out = []) \<and>
   (\<exists>out. load_data read_number unread_markets = Inr out \<and>
      getitem out ''export_value'' = Inr [NaN, NaN] \<and>
      getitem out ''strategy'' = Inr [Str ''Watch'', Str ''Watch''])"
proof -
  have wf: "well_formed only_aggregate" "well_formed unread_markets"
    by (simp_all add: well_formed_def only_aggregate_def unread_markets_def trade_map_header_def
        rename_label_def rename_columns_def)
  have ix1: "index_of ''country'' (columns (rename only_aggregate)) = Some 0"
    "index_of ''export_value'' (columns (rename only_aggregate)) = Some 1"
    "index_of ''growth'' (columns (rename only_aggregate)) = Some 2"
    "index_of ''world_rank'' (columns (rename only_aggregate)) = Some 3"
    by (simp_all add: only_aggregate_def header_columns header_indices)
  have ix2: "index_of ''country'' (columns (rename unread_markets)) = Some 0"
    "index_of ''export_value'' (columns (rename unread_markets)) = Some 1"
    "index_of ''growth'' (columns (rename unread_markets)) = Some 2"
    "index_of ''world_rank'' (columns (rename unread_markets)) = Some 3"
    by (simp_all add: unread_markets_def header_columns header_indices)
  have rd: "read_number ''N/A'' = None" "read_number ''-'' = None" "read_number ''?'' = None"
    "read_number ''n.a.'' = None"
    by (simp_all add: read_number_def digit_of_def)
  have w: "map (\<lambda>r. cell_at r 0) (rows only_aggregate) = [Str ''World'']"
    by (simp add: only_aggregate_def cell_at_def)
  have u: "map (\<lambda>r. map (\<lambda>j. to_numeric read_number (cell_at r j)) [1, 2, 3]) (rows unread_markets) =
     [[NaN, NaN, NaN], [NaN, NaN, NaN]]"
    by (simp add: unread_markets_def cell_at_def rd)
  have a: "\<forall>r \<in> set (rows only_aggregate). cell_at r 0 = Str ''World''"
    by (simp add: only_aggregate_def cell_at_def)
  have b: "\<forall>r \<in> set (rows unread_markets). to_numeric read_number (cell_at r 1) = NaN \<and>
      to_numeric read_number (cell_at r 2) = NaN \<and> to_numeric read_number (cell_at r 3) = NaN"
    by (simp add: unread_markets_def cell_at_def rd)
  have e: "getitem out ''export_value'' = Inr [NaN, NaN]"
    if "load_data read_number unread_markets = Inr out" for out
    using load_data_by_rows [of unread_markets 0 1 2 3 _ _ read_number, OF _ _ _ _ refl refl] that
      ix2 [unfolded columns_rename]
    by (auto simp: unread_markets_def keep_row_def cell_at_def rd)
  have s: "st = [Str ''Watch'', Str ''Watch'']"
    if "load_data read_number unread_markets = Inr out" "getitem out ''strategy'' = Inr st"
      "set st \<subseteq> {Str ''Watch''}" for out st
  proof -
    have "length st = 2"
      using load_data_by_rows [of unread_markets 0 1 2 3 _ _ read_number, OF _ _ _ _ refl refl] that
        ix2 [unfolded columns_rename]
      by (auto simp: unread_markets_def keep_row_def cell_at_def)
    then obtain x y where "st = [x, y]"
      by (metis (no_types, opaque_lifting) One_nat_def Suc_1 length_0_conv length_Suc_conv)
    then show ?thesis
      using that(3) by simp
  qed
  obtain o1 where o1: "load_data read_number only_aggregate = Inr o1" "rows o1 = []"
    using degenerate_tables_load [OF wf(1) ix1, of read_number] a by blast
  obtain o2 st where o2: "load_data read_number unread_markets = Inr o2"
    "getitem o2 ''strategy'' = Inr st" "set st \<subseteq> {Str ''Watch''}"
    using degenerate_tables_load [OF wf(2) ix2, of read_number] b by blast
  have "getitem o2 ''export_value'' = Inr [NaN, NaN]"
    "getitem o2 ''strategy'' = Inr [Str ''Watch'', Str ''Watch'']"
    using e [OF o2(1)] s [OF o2] o2(2) by simp_all
  with o1 o2(1) wf w u show ?thesis
    by blast
qed

text \<open>
  C10. Two tables with the same columns and as many rows that agree in every cell outside
  the world-rank column either both fail, with the same error, or both load, and then
  their strategy columns are equal row for row.
\<close>

theorem strategy_ignores_world_rank:
  assumes "well_formed df" and cols: "columns df' = columns df"
    and len: "length (rows df') = length (rows df)"
    and same: "\<forall>i < length (rows df). \<forall>j.
      index_of ''world_rank'' (columns (rename df)) \<noteq> Some j \<longrightarrow>
      cell_at (rows df' ! i) j = cell_at (rows df ! i) j"
  shows "case load_data p df of
      Inl e \<Rightarrow> load_data p df' = Inl e
    | Inr out \<Rightarrow> (\<exists>out'. load_data p df' = Inr out' \<and>
        getitem out' ''strategy'' = getitem out ''strategy'')"
proof (cases "load_data p df")
  case (Inl e)
  then show ?thesis
    using load_data_error_by_columns [OF cols] by simp
next
  case (Inr out)
  let ?cs = "map rename_label (columns df)"
  obtain ic ie ig iw where ic: "index_of ''country'' ?cs = Some ic"
    and ie: "index_of ''export_value'' ?cs = Some ie"
    and ig: "index_of ''growth'' ?cs = Some ig"
    and iw: "index_of ''world_rank'' ?cs = Some iw"
    using load_data_Inr_indices [OF Inr] by blast
  have neq: "ie \<noteq> iw" "ig \<noteq> iw" "ic \<noteq> iw"
    using index_of_neq [OF ie iw] index_of_neq [OF ig iw] index_of_neq [OF ic iw] by simp_all
  define V where "V = (\<lambda>r. float_of (to_numeric p (cell_at r ie)))"
  define G where "G = (\<lambda>r. float_of (to_numeric p (cell_at r ig)))"
  have pt: "keep_row ic (rows df' ! i) = keep_row ic (rows df ! i) \<and>
      V (rows df' ! i) = V (rows df ! i) \<and> G (rows df' ! i) = G (rows df ! i)"
    if "i < length (rows df')" for i
    using that same neq len iw by (simp add: keep_row_def V_def G_def columns_rename)
  have mv: "map V (filter (keep_row ic) (rows df')) = map V (filter (keep_row ic) (rows df))"
    using pt by (intro map_filter_pointwise [OF len]) simp
  have ms: "map (\<lambda>r. Str (quadrant (V r) (G r) m)) (filter (keep_row ic) (rows df')) =
      map (\<lambda>r. Str (quadrant (V r) (G r) m)) (filter (keep_row ic) (rows df))" for m
    using pt by (intro map_filter_pointwise [OF len]) simp
  obtain out' where "load_data p df' = Inr out'"
    and "getitem out' ''strategy'' =
      Inr (map (\<lambda>r. Str (quadrant (V r) (G r) (median (map V (filter (keep_row ic) (rows df'))))))
        (filter (keep_row ic) (rows df')))"
    using load_data_by_rows [of df' ic ie ig iw _ _ p, OF _ _ _ _ refl refl] ic ie ig iw
    unfolding cols V_def G_def by blast
  moreover have "getitem out ''strategy'' =
      Inr (map (\<lambda>r. Str (quadrant (V r) (G r) (median (map V (filter (keep_row ic) (rows df))))))
        (filter (keep_row ic) (rows df)))"
    using load_data_by_rows [OF ic ie ig iw refl refl, of p] Inr
    unfolding V_def G_def by auto
  ultimately show ?thesis
    using Inr by (simp add: mv ms)
qed

theorem strategy_ignores_world_rank_witness:
  "well_formed four_markets \<and> columns four_markets_reranked = columns four_markets \<and>
   map (\<lambda>r. map (cell_at r) [0, 1, 2]) (rows four_markets_reranked) =
     map (\<lambda>r. map (cell_at r) [0, 1, 2]) (rows four_markets) \<and>
   getitem four_markets_reranked ''Select your indicators-Ranking of partner countries in world imports'' \<noteq>
     getitem four_markets ''Select your indicators-Ranking of partner countries in world imports'' \<and>
   load_data read_number four_markets = Inr four_markets_loaded \<and>
   (\<exists>out'. load_data read_number four_markets_reranked = Inr out' \<and>
      getitem out' ''strategy'' = getitem four_markets_loaded ''strategy'')"
proof -
  have cols: "columns four_markets_reranked = columns four_markets"
    and len: "length (rows four_markets_reranked) = length (rows four_markets)"
    and eq: "map (\<lambda>r. map (cell_at r) [0, 1, 2]) (rows four_markets_reranked) =
     map (\<lambda>r. map (cell_at r) [0, 1, 2]) (rows four_markets)"
    and ne: "getitem four_markets_reranked ''Select your indicators-Ranking of partner countries in world imports'' \<noteq>
     getitem four_markets ''Select your indicators-Ranking of partner countries in world imports''"
    by (simp_all add: four_markets_def four_markets_reranked_def cell_at_def getitem_def
        trade_map_header_def)
  have len5: "length (rows four_markets) = 5"
    by (simp add: four_markets_def)
  have iw: "index_of ''world_rank'' (columns (rename four_markets)) = Some 3"
    by (simp add: columns_rename columns_four header_indices)
  have "cell_at (rows four_markets_reranked ! i) j = cell_at (rows four_markets ! i) j"
    if "i < 5" "j \<noteq> 3" for i j
  proof -
    have "i = 0 \<or> i = 1 \<or> i = 2 \<or> i = 3 \<or> i = 4"
      using that(1) by arith
    moreover have "j = 0 \<or> j = 1 \<or> j = 2 \<or> j > 3"
      using that(2) by arith
    ultimately show ?thesis
      by (elim disjE) (simp_all add: four_markets_def four_markets_reranked_def cell_at_def)
  qed
  then have same: "\<forall>i < length (rows four_markets). \<forall>j.
      index_of ''world_rank'' (columns (rename four_markets)) \<noteq> Some j \<longrightarrow>
      cell_at (rows four_markets_reranked ! i) j = cell_at (rows four_markets ! i) j"
    using len5 by (simp only: iw) auto
  show ?thesis
    using strategy_ignores_world_rank [OF well_formed_examples(1) cols len same, of read_number]
      well_formed_examples(1) cols eq ne
    by (simp add: load_four_markets)
qed

end
